theory Spec2Isabelle
  imports Complex_Main "HOL-Library.AList" "HOL-Library.Log_Nat"
begin

section \<open>Python values\<close>

text \<open>
  The curator and the company analyzer work on loosely typed dictionaries. A value is
  one of Python's JSON-like values; a dictionary is an association list in insertion
  order with string keys (\<open>AList.update\<close> is Python's item assignment: it replaces the
  value in place when the key exists and appends the pair otherwise).

  A finite \<open>float\<close> is represented by the real number it denotes; the two infinities
  and NaN are values of their own, because \<open>int()\<close> raises on them.
\<close>

datatype pyexn = ValueError | TypeError | OverflowError | AttributeError | CollaboratorError

datatype pyfloat = Fin real | PosInf | NegInf | NaN

datatype pyval =
    PNone
  | PBool bool
  | PInt int
  | PFloat pyfloat
  | PStr string
  | PList "pyval list"
  | PDict "(string \<times> pyval) list"

type_synonym pydict = "(string \<times> pyval) list"

text \<open>\<open>d.get(k, default)\<close>\<close>

definition dict_get :: "('k \<times> 'v) list \<Rightarrow> 'k \<Rightarrow> 'v \<Rightarrow> 'v" where
  "dict_get d k dflt = (case map_of d k of None \<Rightarrow> dflt | Some v \<Rightarrow> v)"

section \<open>Strings\<close>

text \<open>
  A \<open>str\<close> is a list of characters with code points below 256. In that range the
  decimal digits (\<open>\d\<close> in a pattern, and what \<open>int()\<close> reads) are \<open>0\<close> to \<open>9\<close>, and
  the characters \<open>str.strip()\<close> removes are the twelve listed in \<open>is_space\<close>.
\<close>

definition is_digit :: "char \<Rightarrow> bool" where
  "is_digit c = (c \<in> set ''0123456789'')"

definition digit_val :: "char \<Rightarrow> int" where
  "digit_val c = int (of_char c) - 48"

definition is_space :: "char \<Rightarrow> bool" where
  "is_space c = ((of_char c :: nat) \<in> {9, 10, 11, 12, 13, 28, 29, 30, 31, 32, 133, 160})"

definition strip :: "string \<Rightarrow> string" where
  "strip s = rev (dropWhile is_space (rev (dropWhile is_space s)))"

text \<open>\<open>s.split('(')[0]\<close>: the part of \<open>s\<close> before the first parenthesis, all of \<open>s\<close> when
  there is none.\<close>

definition split_first :: "char \<Rightarrow> string \<Rightarrow> string" where
  "split_first sep s = takeWhile (\<lambda>c. c \<noteq> sep) s"

definition dec_value :: "string \<Rightarrow> int" where
  "dec_value ds = foldl (\<lambda>a c. 10 * a + digit_val c) 0 ds"

text \<open>
  \<open>int(s)\<close> on a string of decimal digits. It raises ValueError on the empty string
  and, in CPython 3.11 and later, on a string of more than \<open>maxd\<close> digits when it is
  longer than 640 digits and the limit \<open>maxd\<close> (\<open>sys.get_int_max_str_digits()\<close>, 4300
  by default) is not zero.
\<close>

definition py_int_of_digits :: "nat \<Rightarrow> string \<Rightarrow> pyexn + int" where
  "py_int_of_digits maxd ds =
     (if ds = [] then Inl ValueError
      else if 640 < length ds \<and> 0 < maxd \<and> maxd < length ds then Inl ValueError
      else Inr (dec_value ds))"

section \<open>The fact validator (researchers/company.py)\<close>

text \<open>
  \<open>CompanyAnalyzer._validate_and_process_employee_count(raw_count, company)\<close>. The body
  of the \<open>try\<close> is \<open>validate_body\<close>; the handler turns ValueError and TypeError into the
  fallback 1 and lets every other exception through.
\<close>

definition validate_body :: "nat \<Rightarrow> string \<Rightarrow> pyexn + int" where
  "validate_body maxd raw_count =
     (let clean_count = filter is_digit (strip (split_first CHR ''('' raw_count)) in
      if clean_count \<noteq> [] then
        (case py_int_of_digits maxd clean_count of
           Inl e \<Rightarrow> Inl e
         | Inr employee_count \<Rightarrow>
             if 1 \<le> employee_count \<and> employee_count \<le> 10000000
             then Inr employee_count
             else Inr 1)
      else Inr 1)"

definition validate_and_process_employee_count :: "nat \<Rightarrow> string \<Rightarrow> pyexn + int" where
  "validate_and_process_employee_count maxd raw_count =
     (case validate_body maxd raw_count of
        Inl ValueError \<Rightarrow> Inr 1
      | Inl TypeError \<Rightarrow> Inr 1
      | Inl e \<Rightarrow> Inl e
      | Inr n \<Rightarrow> Inr n)"

text \<open>The digits the validator reads from an answer.\<close>

definition answer_digits :: "string \<Rightarrow> string" where
  "answer_digits raw_count = filter is_digit (strip (split_first CHR ''('' raw_count))"

section \<open>URL parsing (urllib.parse)\<close>

text \<open>
  \<open>curate_data\<close> calls \<open>urlparse(url)\<close> and \<open>parsed._replace(query='',
  fragment='').geturl()\<close> of Python's standard library. The definitions follow
  \<open>urllib/parse.py\<close> of CPython 3.11.10 on strings of code points below 256 (where
  \<open>_checknetloc\<close> never raises). The check of a bracketed host against the grammar of
  IP literals (\<open>_check_bracketed_host\<close>, which uses the \<open>ipaddress\<close> module) is
  the parameter \<open>ip_literal_ok\<close> of the runtime record below.
\<close>

record parse_result =
  scheme :: string
  netloc :: string
  path :: string
  params :: string
  query :: string
  fragment :: string

definition py_lower_char :: "char \<Rightarrow> char" where
  "py_lower_char c =
     (let n = (of_char c :: nat) in
      if (65 \<le> n \<and> n \<le> 90) \<or> (192 \<le> n \<and> n \<le> 222 \<and> n \<noteq> 215)
      then char_of (n + 32) else c)"

definition py_lower :: "string \<Rightarrow> string" where
  "py_lower s = map py_lower_char s"

definition is_ascii_alpha :: "char \<Rightarrow> bool" where
  "is_ascii_alpha c =
     (let n = (of_char c :: nat) in (65 \<le> n \<and> n \<le> 90) \<or> (97 \<le> n \<and> n \<le> 122))"

definition is_scheme_char :: "char \<Rightarrow> bool" where
  "is_scheme_char c = (is_ascii_alpha c \<or> is_digit c \<or> c \<in> set ''+-.'')"

definition uses_params :: "string list" where
  "uses_params = ['''', ''ftp'', ''hdl'', ''prospero'', ''http'', ''imap'', ''https'',
     ''shttp'', ''rtsp'', ''rtsps'', ''rtspu'', ''sip'', ''sips'', ''mms'', ''sftp'', ''tel'']"

definition uses_netloc :: "string list" where
  "uses_netloc = ['''', ''ftp'', ''http'', ''gopher'', ''nntp'', ''telnet'', ''imap'',
     ''wais'', ''file'', ''mms'', ''https'', ''shttp'', ''snews'', ''prospero'', ''rtsp'',
     ''rtsps'', ''rtspu'', ''rsync'', ''svn'', ''svn+ssh'', ''sftp'', ''nfs'', ''git'', ''git+ssh'',
     ''ws'', ''wss'']"

text \<open>\<open>s.partition(sep)\<close> as (before, found, after), and the part of \<open>s\<close> after the
  last \<open>sep\<close> (\<open>s.rpartition(sep)[2]\<close>).\<close>

definition partition_at :: "char \<Rightarrow> string \<Rightarrow> string \<times> bool \<times> string" where
  "partition_at sep s =
     (takeWhile (\<lambda>c. c \<noteq> sep) s, sep \<in> set s, drop 1 (dropWhile (\<lambda>c. c \<noteq> sep) s))"

definition after_last :: "char \<Rightarrow> string \<Rightarrow> string" where
  "after_last sep s = rev (takeWhile (\<lambda>c. c \<noteq> sep) (rev s))"

text \<open>The services of the Python runtime that the model takes as given: the check of
  an IP literal, \<open>float(s)\<close> on a string (\<open>None\<close> where it raises ValueError) and the
  format \<open>f"{x:.4f}"\<close>.\<close>

record runtime =
  ip_literal_ok :: "string \<Rightarrow> bool"
  str_to_float :: "string \<Rightarrow> pyfloat option"
  format_4f :: "pyfloat \<Rightarrow> string"

text \<open>The host between the brackets of a network location:
  \<open>netloc.partition('[')[2].partition(']')[0]\<close>.\<close>

definition bracketed_host :: "string \<Rightarrow> string" where
  "bracketed_host nl =
     (let (before, found, rest) = partition_at CHR ''['' nl;
          (host, found', after) = partition_at CHR '']'' rest
      in host)"

definition urlsplit :: "runtime \<Rightarrow> string \<Rightarrow> pyexn + parse_result" where
  "urlsplit R url0 =
     (let url1 = dropWhile (\<lambda>c. (of_char c :: nat) \<le> 32) url0;
          url2 = filter (\<lambda>c. (of_char c :: nat) \<notin> {9, 10, 13}) url1;
          pre = takeWhile (\<lambda>c. c \<noteq> CHR '':'') url2;
          has_scheme = (CHR '':'' \<in> set url2 \<and> pre \<noteq> [] \<and> is_ascii_alpha (hd url2) \<and>
                        list_all is_scheme_char pre);
          sch = (if has_scheme then py_lower pre else []);
          url3 = (if has_scheme then drop (length pre + 1) url2 else url2);
          has_netloc = (take 2 url3 = ''//'');
          nl = (if has_netloc
                then takeWhile (\<lambda>c. c \<notin> set ''/?#'') (drop 2 url3) else []);
          url4 = (if has_netloc
                  then dropWhile (\<lambda>c. c \<notin> set ''/?#'') (drop 2 url3) else url3)
      in if has_netloc \<and> (CHR ''['' \<in> set nl) \<noteq> (CHR '']'' \<in> set nl) then Inl ValueError
         else if has_netloc \<and> CHR ''['' \<in> set nl \<and> CHR '']'' \<in> set nl \<and>
                 \<not> ip_literal_ok R (bracketed_host nl) then Inl ValueError
         else
           (let (url5, f1, frag) = partition_at CHR ''#'' url4;
                (url6, f2, qry) = partition_at CHR ''?'' url5
            in Inr \<lparr>scheme = sch, netloc = nl, path = url6, params = [], query = qry,
                     fragment = frag\<rparr>))"

text \<open>\<open>_splitparams\<close>: the parameters follow the first semicolon of the last path
  segment.\<close>

definition splitparams :: "string \<Rightarrow> string \<times> string" where
  "splitparams url =
     (if CHR ''/'' \<in> set url then
        (let last_seg = after_last CHR ''/'' url;
             dir = take (length url - length last_seg) url
         in if CHR '';'' \<in> set last_seg
            then (dir @ takeWhile (\<lambda>c. c \<noteq> CHR '';'') last_seg,
                  drop 1 (dropWhile (\<lambda>c. c \<noteq> CHR '';'') last_seg))
            else (url, []))
      else (takeWhile (\<lambda>c. c \<noteq> CHR '';'') url, drop 1 (dropWhile (\<lambda>c. c \<noteq> CHR '';'') url)))"

definition urlparse :: "runtime \<Rightarrow> string \<Rightarrow> pyexn + parse_result" where
  "urlparse R url =
     (case urlsplit R url of
        Inl e \<Rightarrow> Inl e
      | Inr r \<Rightarrow>
          if scheme r \<in> set uses_params \<and> CHR '';'' \<in> set (path r)
          then (let (p, ps) = splitparams (path r) in Inr (r\<lparr>path := p, params := ps\<rparr>))
          else Inr r)"

text \<open>\<open>ParseResult.geturl()\<close>, that is \<open>urlunparse\<close> and \<open>urlunsplit\<close>.\<close>

definition geturl :: "parse_result \<Rightarrow> string" where
  "geturl r =
     (let url1 = (if params r \<noteq> [] then path r @ '';'' @ params r else path r);
          url2 = (if netloc r \<noteq> [] \<or> (scheme r \<noteq> [] \<and> scheme r \<in> set uses_netloc) \<or>
                     take 2 url1 = ''//''
                  then ''//'' @ netloc r @
                       (if url1 \<noteq> [] \<and> take 1 url1 \<noteq> ''/'' then ''/'' @ url1 else url1)
                  else url1);
          url3 = (if scheme r \<noteq> [] then scheme r @ '':'' @ url2 else url2);
          url4 = (if query r \<noteq> [] then url3 @ ''?'' @ query r else url3)
      in if fragment r \<noteq> [] then url4 @ ''#'' @ fragment r else url4)"

text \<open>The normalized key of \<open>curate_data\<close>:
  \<open>urlparse(url)._replace(query='', fragment='').geturl()\<close>.\<close>

definition clean_url_of :: "runtime \<Rightarrow> string \<Rightarrow> pyexn + string" where
  "clean_url_of R url =
     (case urlparse R url of
        Inl e \<Rightarrow> Inl e
      | Inr parsed \<Rightarrow> Inr (geturl (parsed\<lparr>query := [], fragment := []\<rparr>)))"

section \<open>Floats\<close>

text \<open>
  Comparisons of floats as Python makes them (every comparison with NaN is false). The
  relevance threshold is the literal \<open>0.4\<close>: the double nearest to 2/5 is the least
  double that is not below 2/5, so on doubles the comparison with the literal is the
  comparison with the real number 2/5.
\<close>

fun float_ge :: "pyfloat \<Rightarrow> real \<Rightarrow> bool" where
  "float_ge (Fin x) t = (t \<le> x)"
| "float_ge PosInf t = True"
| "float_ge NegInf t = False"
| "float_ge NaN t = False"

fun float_lt :: "pyfloat \<Rightarrow> pyfloat \<Rightarrow> bool" where
  "float_lt NaN b = False"
| "float_lt a NaN = False"
| "float_lt (Fin x) (Fin y) = (x < y)"
| "float_lt (Fin x) PosInf = True"
| "float_lt (Fin x) NegInf = False"
| "float_lt PosInf b = False"
| "float_lt NegInf NegInf = False"
| "float_lt NegInf b = True"

text \<open>
  \<open>float(n)\<close> on an integer rounds to the nearest double, ties to even, and raises
  OverflowError from \<open>2^1024 - 2^970\<close> on, the first integer that rounds to \<open>2^1024\<close>.
\<close>

definition round_double :: "int \<Rightarrow> real" where
  "round_double n =
     (let m = \<bar>n\<bar>; e = bitlen m - 53 in
      if e \<le> 0 then real_of_int n
      else (let q = m div 2 ^ nat e; r = m mod 2 ^ nat e; half = 2 ^ (nat e - 1);
                q' = (if half < r \<or> (r = half \<and> odd q) then q + 1 else q)
            in real_of_int (sgn n * q' * 2 ^ nat e)))"

fun py_float :: "runtime \<Rightarrow> pyval \<Rightarrow> pyexn + pyfloat" where
  "py_float R PNone = Inl TypeError"
| "py_float R (PBool b) = Inr (Fin (if b then 1 else 0))"
| "py_float R (PInt n) =
     (if 2 ^ 1024 - 2 ^ 970 \<le> \<bar>n\<bar> then Inl OverflowError else Inr (Fin (round_double n)))"
| "py_float R (PFloat x) = Inr x"
| "py_float R (PStr s) = (case str_to_float R s of None \<Rightarrow> Inl ValueError | Some x \<Rightarrow> Inr x)"
| "py_float R (PList xs) = Inl TypeError"
| "py_float R (PDict d) = Inl TypeError"

text \<open>
  \<open>isinstance(v, (int, float))\<close>, \<open>v > 0\<close> and \<open>int(v)\<close> on such a number (\<open>bool\<close>
  is a subclass of \<open>int\<close>; \<open>int()\<close> truncates a float towards zero and raises on an
  infinity and on NaN).
\<close>

fun is_int_or_float :: "pyval \<Rightarrow> bool" where
  "is_int_or_float (PBool b) = True"
| "is_int_or_float (PInt n) = True"
| "is_int_or_float (PFloat x) = True"
| "is_int_or_float v = False"

fun gt_zero :: "pyval \<Rightarrow> bool" where
  "gt_zero (PBool b) = b"
| "gt_zero (PInt n) = (0 < n)"
| "gt_zero (PFloat (Fin x)) = (0 < x)"
| "gt_zero (PFloat PosInf) = True"
| "gt_zero v = False"

fun int_of_number :: "pyval \<Rightarrow> pyexn + int" where
  "int_of_number (PBool b) = Inr (if b then 1 else 0)"
| "int_of_number (PInt n) = Inr n"
| "int_of_number (PFloat (Fin x)) = Inr (if 0 \<le> x then \<lfloor>x\<rfloor> else \<lceil>x\<rceil>)"
| "int_of_number (PFloat PosInf) = Inl OverflowError"
| "int_of_number (PFloat NegInf) = Inl OverflowError"
| "int_of_number (PFloat NaN) = Inl ValueError"
| "int_of_number v = Inl TypeError"

text \<open>A stable sort into descending order of a float key:
  \<open>xs.sort(key=..., reverse=True)\<close> and \<open>sorted(xs, key=..., reverse=True)\<close>.\<close>

fun insert_desc :: "('a \<Rightarrow> pyfloat) \<Rightarrow> 'a \<Rightarrow> 'a list \<Rightarrow> 'a list" where
  "insert_desc key x [] = [x]"
| "insert_desc key x (y # ys) =
     (if float_lt (key x) (key y) then y # insert_desc key x ys else x # y # ys)"

definition sort_desc :: "('a \<Rightarrow> pyfloat) \<Rightarrow> 'a list \<Rightarrow> 'a list" where
  "sort_desc key xs = foldr (insert_desc key) xs []"

text \<open>\<open>dict(items)\<close> and a dictionary comprehension over pairs.\<close>

definition dict_of_items :: "('k \<times> 'v) list \<Rightarrow> ('k \<times> 'v) list" where
  "dict_of_items items = foldl (\<lambda>d (k, v). AList.update k v d) [] items"

section \<open>The research state\<close>

text \<open>
  \<open>ResearchState\<close> is one mutable dictionary per job; a field is \<open>None\<close> when the key
  is absent. The raw documents are objects that \<open>curate_data\<close> mutates and that several
  mappings may share, so a raw mapping holds addresses into \<open>heap\<close>. Evaluated
  documents are fresh dictionaries \<open>{**doc, "evaluation": {...}}\<close>, held by value as
  the document's entries and the evaluation entry. The observer channel is the pair
  \<open>websocket_manager\<close>, \<open>job_id\<close>; the manager is given by the function that tells
  what its k-th call raises, if anything, and \<open>ws_updates\<close> lists the status tags of
  the calls made so far. Logging and the narration in \<open>messages\<close> are left out.
\<close>

type_synonym addr = nat

type_synonym rawmap = "(string \<times> addr) list"

record evaluation =
  overall_score :: pyfloat
  eval_query :: pyval
  relevance_reason :: string

record evaluated_doc =
  doc_fields :: pydict
  evaluation :: evaluation

record category_counts =
  enriched :: nat
  total :: nat

record employee_counts =
  emp_enriched :: int
  emp_total :: nat
  data :: "(string \<times> int) list"
  hasData :: bool
  totalCount :: int
  validCounts :: nat

record snapshot =
  snap_company :: category_counts
  employeeCount :: employee_counts
  snap_industry :: category_counts
  snap_financial :: category_counts
  snap_news :: category_counts

type_synonym reference_data = "string list \<times> pydict \<times> pydict"

record research_state =
  heap :: "addr \<Rightarrow> pyval"
  company :: "string option"
  company_url :: "string option"
  company_data :: "rawmap option"
  industry_data :: "rawmap option"
  financial_data :: "rawmap option"
  news_data :: "rawmap option"
  curated_company_data :: "(string \<times> evaluated_doc) list option"
  curated_industry_data :: "(string \<times> evaluated_doc) list option"
  curated_financial_data :: "(string \<times> evaluated_doc) list option"
  curated_news_data :: "(string \<times> evaluated_doc) list option"
  employee_count :: "pydict option"
  Company_Count :: "int option"
  enrichment_counts :: "pydict option"
  enrichmentCounts :: "snapshot option"
  references :: "reference_data option"
  websocket_manager :: "(nat \<Rightarrow> pyexn option) option"
  job_id :: "string option"
  ws_updates :: "string list"

text \<open>\<open>state.get(key, default)\<close>\<close>

definition state_get :: "'a option \<Rightarrow> 'a \<Rightarrow> 'a" where
  "state_get field dflt = (case field of None \<Rightarrow> dflt | Some v \<Rightarrow> v)"

text \<open>
  \<open>websocket_manager.send_status_update(...)\<close>, and the guard
  \<open>if websocket_manager and job_id\<close> in front of it.
\<close>

definition send_status_update :: "string \<Rightarrow> research_state \<Rightarrow> research_state \<times> pyexn option" where
  "send_status_update status s =
     (case websocket_manager s of
        None \<Rightarrow> (s, None)
      | Some outcome \<Rightarrow>
          (s\<lparr>ws_updates := ws_updates s @ [status]\<rparr>, outcome (length (ws_updates s))))"

definition ws_attached :: "research_state \<Rightarrow> bool" where
  "ws_attached s = (websocket_manager s \<noteq> None \<and> job_id s \<noteq> None \<and> job_id s \<noteq> Some [])"

definition notify :: "string \<Rightarrow> research_state \<Rightarrow> research_state \<times> pyexn option" where
  "notify status s = (if ws_attached s then send_status_update status s else (s, None))"

section \<open>The curator (nodes/curator.py)\<close>

subsection \<open>Document evaluation\<close>

definition relevance_threshold :: real where
  "relevance_threshold = 0.4"

text \<open>
  The loop of \<open>evaluate_documents\<close>, inside its outer \<open>try\<close>. The inner handler
  catches ValueError and TypeError and goes on with the next document (when it is the
  notification that raises one of them, the document has been appended already); any
  other exception leaves the loop (\<open>Inl\<close>). A document that is not a dictionary has
  no \<open>get\<close>.
\<close>

fun eval_loop ::
  "runtime \<Rightarrow> addr list \<Rightarrow> research_state \<Rightarrow> evaluated_doc list \<Rightarrow>
   research_state \<times> (pyexn + evaluated_doc list)" where
  "eval_loop R [] s evaluated_docs = (s, Inr evaluated_docs)"
| "eval_loop R (a # docs) s evaluated_docs =
     (case heap s a of
        PDict doc \<Rightarrow>
          (case py_float R (dict_get doc ''score'' (PInt 0)) of
             Inl e \<Rightarrow>
               if e = ValueError \<or> e = TypeError then eval_loop R docs s evaluated_docs
               else (s, Inl e)
           | Inr tavily_score \<Rightarrow>
               if float_ge tavily_score relevance_threshold then
                 (let evaluated_doc =
                        \<lparr>doc_fields = doc,
                         evaluation =
                           \<lparr>overall_score = tavily_score,
                            eval_query = dict_get doc ''query'' (PStr []),
                            relevance_reason =
                              ''Score '' @ format_4f R tavily_score @ '' meets threshold 0.4''\<rparr>\<rparr>
                  in case notify ''document_kept'' s of
                       (s', Some e) \<Rightarrow>
                         if e = ValueError \<or> e = TypeError
                         then eval_loop R docs s' (evaluated_docs @ [evaluated_doc])
                         else (s', Inl e)
                     | (s', None) \<Rightarrow> eval_loop R docs s' (evaluated_docs @ [evaluated_doc]))
               else eval_loop R docs s evaluated_docs)
      | _ \<Rightarrow> (s, Inl AttributeError))"

text \<open>
  \<open>Curator.evaluate_documents(state, docs, context)\<close>. The first notification is
  outside the \<open>try\<close>; the outer handler turns an exception of the loop into the empty
  result.
\<close>

definition evaluate_documents ::
  "runtime \<Rightarrow> research_state \<Rightarrow> addr list \<Rightarrow> research_state \<times> (pyexn + evaluated_doc list)" where
  "evaluate_documents R s docs =
     (case notify ''processing'' s of
        (s0, Some e) \<Rightarrow> (s0, Inl e)
      | (s0, None) \<Rightarrow>
          if docs = [] then (s0, Inr [])
          else (case eval_loop R docs s0 [] of
                  (s1, Inl e) \<Rightarrow> (s1, Inr [])
                | (s1, Inr evaluated_docs) \<Rightarrow>
                    (s1, Inr (sort_desc (\<lambda>x. overall_score (evaluation x)) evaluated_docs))))"

subsection \<open>Enrichment accounting\<close>

text \<open>The loop of \<open>build_enrichment_counts\<close> over \<open>employee_count_dict.items()\<close>.\<close>

fun filter_counts ::
  "pydict \<Rightarrow> (string \<times> int) list \<Rightarrow> int \<Rightarrow> pyexn + ((string \<times> int) list \<times> int)" where
  "filter_counts [] valid_employee_counts total_employee_count =
     Inr (valid_employee_counts, total_employee_count)"
| "filter_counts ((url, count) # rest) valid_employee_counts total_employee_count =
     (if is_int_or_float count \<and> gt_zero count then
        (case int_of_number count of
           Inl e \<Rightarrow> Inl e
         | Inr clean_count \<Rightarrow>
             if 1 \<le> clean_count \<and> clean_count \<le> 10000000
             then filter_counts rest (AList.update url clean_count valid_employee_counts)
                    (total_employee_count + clean_count)
             else filter_counts rest valid_employee_counts total_employee_count)
      else filter_counts rest valid_employee_counts total_employee_count)"

text \<open>\<open>Curator._extract_employee_count_from_company_data(company_data)\<close>\<close>

fun extract_employee_count_from_company_data ::
  "(addr \<Rightarrow> pyval) \<Rightarrow> rawmap \<Rightarrow> (string \<times> int) list \<Rightarrow> pyexn + (string \<times> int) list" where
  "extract_employee_count_from_company_data h [] valid_employee_counts =
     Inr valid_employee_counts"
| "extract_employee_count_from_company_data h ((url, a) # rest) valid_employee_counts =
     (case h a of
        PDict d \<Rightarrow>
          (case map_of d ''employee_count'' of
             None \<Rightarrow> extract_employee_count_from_company_data h rest valid_employee_counts
           | Some emp_count \<Rightarrow>
               if is_int_or_float emp_count \<and> gt_zero emp_count then
                 (case int_of_number emp_count of
                    Inl e \<Rightarrow> Inl e
                  | Inr clean_count \<Rightarrow>
                      if 1 \<le> clean_count \<and> clean_count \<le> 10000000
                      then extract_employee_count_from_company_data h rest
                             (AList.update url clean_count valid_employee_counts)
                      else extract_employee_count_from_company_data h rest
                             valid_employee_counts)
               else extract_employee_count_from_company_data h rest valid_employee_counts)
      | _ \<Rightarrow> extract_employee_count_from_company_data h rest valid_employee_counts)"

definition len_field :: "'a list option \<Rightarrow> nat" where
  "len_field field = length (state_get field [])"

text \<open>
  \<open>Curator.build_enrichment_counts(state)\<close>: the state with the validated counts written
  back, and the snapshot. An exception leaves the loops before the state is written.
\<close>

definition build_enrichment_counts :: "research_state \<Rightarrow> pyexn + (research_state \<times> snapshot)" where
  "build_enrichment_counts s =
     (let cdata = state_get (company_data s) [];
          employee_count_dict = state_get (employee_count s) []
      in case (if employee_count_dict \<noteq> [] then filter_counts employee_count_dict [] 0
               else Inr ([], 0)) of
           Inl e \<Rightarrow> Inl e
         | Inr (valid0, total0) \<Rightarrow>
            (case (if valid0 = [] \<and> cdata \<noteq> [] then
                     (case extract_employee_count_from_company_data (heap s) cdata [] of
                        Inl e \<Rightarrow> Inl e
                      | Inr v \<Rightarrow> Inr (v, sum_list (map snd v)))
                   else Inr (valid0, total0)) of
               Inl e \<Rightarrow> Inl e
             | Inr (valid_employee_counts, total_employee_count) \<Rightarrow>
                (let s' = (if valid_employee_counts \<noteq> [] then
                             s\<lparr>employee_count :=
                                  Some (map (\<lambda>(url, n). (url, PInt n)) valid_employee_counts),
                               Company_Count := Some (int (length valid_employee_counts))\<rparr>
                           else s\<lparr>employee_count := Some [], Company_Count := Some 0\<rparr>);
                     enrichment_counts =
                       \<lparr>snap_company =
                          \<lparr>enriched = len_field (curated_company_data s'),
                           total = length cdata\<rparr>,
                        employeeCount =
                          \<lparr>emp_enriched = total_employee_count,
                           emp_total = 1,
                           data = valid_employee_counts,
                           hasData = (valid_employee_counts \<noteq> [] \<and> 0 < total_employee_count),
                           totalCount = total_employee_count,
                           validCounts = length valid_employee_counts\<rparr>,
                        snap_industry =
                          \<lparr>enriched = len_field (curated_industry_data s'),
                           total = len_field (industry_data s')\<rparr>,
                        snap_financial =
                          \<lparr>enriched = len_field (curated_financial_data s'),
                           total = len_field (financial_data s')\<rparr>,
                        snap_news =
                          \<lparr>enriched = len_field (curated_news_data s'),
                           total = len_field (news_data s')\<rparr>\<rparr>
                 in Inr (s', enrichment_counts))))"

subsection \<open>Preserving and restoring the employee count\<close>

record preserved =
  p_employee_count :: pydict
  p_Company_Count :: int
  p_enrichment_counts :: pydict

definition preserve_critical_state_data :: "research_state \<Rightarrow> preserved" where
  "preserve_critical_state_data s =
     \<lparr>p_employee_count = state_get (employee_count s) [],
      p_Company_Count = state_get (Company_Count s) 0,
      p_enrichment_counts = state_get (enrichment_counts s) []\<rparr>"

definition restore_critical_state_data :: "research_state \<Rightarrow> preserved \<Rightarrow> research_state" where
  "restore_critical_state_data s preserved_data =
     (let s1 = (if p_employee_count preserved_data \<noteq> [] then
                  s\<lparr>employee_count := Some (p_employee_count preserved_data),
                    Company_Count := Some (p_Company_Count preserved_data)\<rparr>
                else s)
      in if p_enrichment_counts preserved_data \<noteq> [] then
           (let current_counts = state_get (enrichment_counts s1) [] in
            case map_of (p_enrichment_counts preserved_data) ''employeeCount'' of
              Some v \<Rightarrow>
                s1\<lparr>enrichment_counts := Some (AList.update ''employeeCount'' v current_counts)\<rparr>
            | None \<Rightarrow> s1)
         else s1)"

subsection \<open>Deduplication by normalized URL\<close>

text \<open>\<open>doc[key] = value\<close> on the object at an address: only a dictionary supports item
  assignment with a string key.\<close>

definition set_item ::
  "addr \<Rightarrow> string \<Rightarrow> pyval \<Rightarrow> (addr \<Rightarrow> pyval) \<Rightarrow> pyexn + (addr \<Rightarrow> pyval)" where
  "set_item a k v h =
     (case h a of
        PDict d \<Rightarrow> Inr (h(a := PDict (AList.update k v d)))
      | _ \<Rightarrow> Inl TypeError)"

text \<open>
  One round of the loop \<open>for url, doc in data.items()\<close> of \<open>curate_data\<close>, on the heap
  and \<open>unique_docs\<close>. Any exception skips the entry; a second assignment that raises
  leaves the first one done. The source also assigns \<open>urljoin('https://', url)\<close> to the
  loop variable \<open>url\<close> when \<open>parsed.scheme\<close> is empty; the variable is not read again
  before the next round and \<open>urljoin\<close> does not raise where \<open>urlparse\<close> has not, so the
  assignment has no counterpart here: \<open>clean_url\<close> is built from \<open>parsed\<close>, which was
  computed before.
\<close>

definition dedup_step ::
  "runtime \<Rightarrow> string \<Rightarrow> (addr \<Rightarrow> pyval) \<times> rawmap \<Rightarrow> string \<times> addr \<Rightarrow> (addr \<Rightarrow> pyval) \<times> rawmap" where
  "dedup_step R doc_type acc entry =
     (let (h, unique_docs) = acc; (url, doc) = entry in
      case urlparse R url of
        Inl e \<Rightarrow> (h, unique_docs)
      | Inr parsed \<Rightarrow>
          (let clean_url = geturl (parsed\<lparr>query := [], fragment := []\<rparr>) in
           if map_of unique_docs clean_url = None then
             (case set_item doc ''url'' (PStr clean_url) h of
                Inl e \<Rightarrow> (h, unique_docs)
              | Inr h1 \<Rightarrow>
                  (case set_item doc ''doc_type'' (PStr doc_type) h1 of
                     Inl e \<Rightarrow> (h1, unique_docs)
                   | Inr h2 \<Rightarrow> (h2, AList.update clean_url doc unique_docs)))
           else (h, unique_docs)))"

definition dedup :: "runtime \<Rightarrow> string \<Rightarrow> (addr \<Rightarrow> pyval) \<Rightarrow> rawmap \<Rightarrow> (addr \<Rightarrow> pyval) \<times> rawmap" where
  "dedup R doc_type h raw = foldl (dedup_step R doc_type) (h, []) raw"

subsection \<open>Curation\<close>

text \<open>The entries of \<open>data_types\<close>, in the order of the dictionary literal.\<close>

datatype category = Financial | News | Industry | Company

definition data_types :: "category list" where
  "data_types = [Financial, News, Industry, Company]"

fun doc_type_of :: "category \<Rightarrow> string" where
  "doc_type_of Financial = ''financial''"
| "doc_type_of News = ''news''"
| "doc_type_of Industry = ''industry''"
| "doc_type_of Company = ''company''"

text \<open>\<open>state.get(data_field, {})\<close> and \<open>state[f'curated_{data_field}'] = ...\<close>\<close>

fun raw_data :: "category \<Rightarrow> research_state \<Rightarrow> rawmap" where
  "raw_data Financial s = state_get (financial_data s) []"
| "raw_data News s = state_get (news_data s) []"
| "raw_data Industry s = state_get (industry_data s) []"
| "raw_data Company s = state_get (company_data s) []"

fun set_curated ::
  "category \<Rightarrow> (string \<times> evaluated_doc) list \<Rightarrow> research_state \<Rightarrow> research_state" where
  "set_curated Financial v s = s\<lparr>curated_financial_data := Some v\<rparr>"
| "set_curated News v s = s\<lparr>curated_news_data := Some v\<rparr>"
| "set_curated Industry v s = s\<lparr>curated_industry_data := Some v\<rparr>"
| "set_curated Company v s = s\<lparr>curated_company_data := Some v\<rparr>"

fun get_curated :: "category \<Rightarrow> research_state \<Rightarrow> (string \<times> evaluated_doc) list option" where
  "get_curated Financial s = curated_financial_data s"
| "get_curated News s = curated_news_data s"
| "get_curated Industry s = curated_industry_data s"
| "get_curated Company s = curated_company_data s"

text \<open>A curation task: the category, \<open>list(unique_docs.keys())\<close> and
  \<open>list(unique_docs.values())\<close>.\<close>

type_synonym task = "category \<times> string list \<times> addr list"

type_synonym doc_counts = "(category \<times> nat \<times> nat) list"

text \<open>The first loop of \<open>curate_data\<close>: deduplication, category by category.\<close>

fun prepare_tasks :: "runtime \<Rightarrow> category list \<Rightarrow> research_state \<Rightarrow> research_state \<times> task list" where
  "prepare_tasks R [] s = (s, [])"
| "prepare_tasks R (c # cs) s =
     (if raw_data c s = [] then prepare_tasks R cs s
      else (let (h, unique_docs) = dedup R (doc_type_of c) (heap s) (raw_data c s);
                (s', tasks) = prepare_tasks R cs (s\<lparr>heap := h\<rparr>)
            in (s', (c, map fst unique_docs, map snd unique_docs) # tasks)))"

text \<open>
  The second loop of \<open>curate_data\<close>, over the tasks, with the local \<open>doc_counts\<close>
  (initial, kept). An exception of a notification or of \<open>evaluate_documents\<close> leaves
  the loop.
\<close>

fun process_tasks ::
  "runtime \<Rightarrow> task list \<Rightarrow> research_state \<Rightarrow> doc_counts \<Rightarrow>
   (research_state \<times> doc_counts) \<times> pyexn option" where
  "process_tasks R [] s dc = ((s, dc), None)"
| "process_tasks R ((c, urls, docs) # tasks) s dc =
     (case notify ''category_start'' s of
        (s1, Some e) \<Rightarrow> ((s1, dc), Some e)
      | (s1, None) \<Rightarrow>
          (case evaluate_documents R s1 docs of
             (s2, Inl e) \<Rightarrow> ((s2, dc), Some e)
           | (s2, Inr evaluated_docs) \<Rightarrow>
               if evaluated_docs = [] then
                 process_tasks R tasks s2 (AList.update c (length docs, 0) dc)
               else
                 (let relevant_docs = dict_of_items (zip urls evaluated_docs);
                      sorted_items =
                        sort_desc (\<lambda>item. overall_score (evaluation (snd item))) relevant_docs;
                      top_items = (if 30 < length sorted_items then take 30 sorted_items
                                   else sorted_items);
                      kept_docs = dict_of_items top_items
                  in process_tasks R tasks (set_curated c kept_docs s2)
                       (AList.update c (length docs, length kept_docs) dc))))"

text \<open>\<open>Curator._send_enrichment_update\<close>: the call is inside a \<open>try\<close> that swallows
  every exception.\<close>

definition send_enrichment_update :: "research_state \<Rightarrow> research_state" where
  "send_enrichment_update s = fst (notify ''enrichment_update'' s)"

text \<open>
  \<open>Curator.curate_data(state)\<close>: the state as it is when the call ends, and the
  exception that ends it, if any. \<open>process_references_from_search_results\<close> is a
  function of the repository outside the files at hand; it is the parameter \<open>refs\<close>,
  a function of the state that returns its three results or raises, and is taken not
  to modify the state.
\<close>

definition curate_data ::
  "runtime \<Rightarrow> (research_state \<Rightarrow> pyexn + reference_data) \<Rightarrow> research_state \<Rightarrow>
   research_state \<times> pyexn option" where
  "curate_data R refs s =
     (let preserved_data = preserve_critical_state_data s in
      case notify ''processing'' s of
        (s0, Some e) \<Rightarrow> (s0, Some e)
      | (s0, None) \<Rightarrow>
          (let (s1, curation_tasks) = prepare_tasks R data_types s0 in
           case process_tasks R curation_tasks s1 [] of
             ((s2, dcounts), Some e) \<Rightarrow> (s2, Some e)
           | ((s2, dcounts), None) \<Rightarrow>
               (let s3 = restore_critical_state_data s2 preserved_data;
                    s4 = s3\<lparr>references :=
                              Some (case refs s3 of Inl e \<Rightarrow> ([], [], []) | Inr r \<Rightarrow> r)\<rparr>
                in case build_enrichment_counts s4 of
                     Inl e \<Rightarrow> (s4, Some e)
                   | Inr (s5, ecounts) \<Rightarrow>
                       (case notify ''curation_complete''
                               (s5\<lparr>enrichmentCounts := Some ecounts\<rparr>) of
                          (s6, Some e) \<Rightarrow> (s6, Some e)
                        | (s6, None) \<Rightarrow> (send_enrichment_update s6, None)))))"

text \<open>\<open>Curator.run(state)\<close>: the handler of \<open>except Exception\<close> patches the state and
  calls \<open>build_enrichment_counts\<close> outside any \<open>try\<close>.\<close>

definition run ::
  "runtime \<Rightarrow> (research_state \<Rightarrow> pyexn + reference_data) \<Rightarrow> research_state \<Rightarrow>
   research_state \<times> pyexn option" where
  "run R refs s =
     (case curate_data R refs s of
        (s', None) \<Rightarrow> (s', None)
      | (s', Some e) \<Rightarrow>
          (let s1 = (if employee_count s' = None then s'\<lparr>employee_count := Some []\<rparr> else s');
               s2 = (if Company_Count s1 = None then s1\<lparr>Company_Count := Some 0\<rparr> else s1)
           in case build_enrichment_counts s2 of
                Inl e' \<Rightarrow> (s2, Some e')
              | Inr (s3, ecounts) \<Rightarrow> (s3\<lparr>enrichmentCounts := Some ecounts\<rparr>, None)))"

section \<open>The employee-count step of the company analyzer (researchers/company.py)\<close>

text \<open>\<open>re.search(r"(\d[\d,]*)", result)\<close>: the first digit and the digits and commas
  that follow it.\<close>

definition search_count :: "string \<Rightarrow> string option" where
  "search_count result =
     (let rest = dropWhile (\<lambda>c. \<not> is_digit c) result in
      if rest = [] then None
      else Some (takeWhile (\<lambda>c. is_digit c \<or> c = CHR '','') rest))"

text \<open>\<open>CompanyAnalyzer.get_employee_count_via_llm\<close>. The language model is a
  collaborator: \<open>response\<close> is the text it answers, \<open>None\<close> when the call raises.\<close>

definition get_employee_count_via_llm :: "string option \<Rightarrow> string" where
  "get_employee_count_via_llm response =
     (case response of
        None \<Rightarrow> ''1''
      | Some text \<Rightarrow>
          (case search_count (strip text) of
             Some m \<Rightarrow> filter (\<lambda>c. c \<noteq> CHR '','') m
           | None \<Rightarrow> ''1''))"

text \<open>\<open>CompanyAnalyzer._send_employee_count_update\<close> and
  \<open>_send_enrichment_counts_update\<close>: each body is a \<open>try\<close> that swallows every
  exception (also the StopIteration of \<open>next\<close> on an empty \<open>employee_count\<close>).\<close>

definition send_employee_count_update :: "int \<Rightarrow> string \<Rightarrow> research_state \<Rightarrow> research_state" where
  "send_employee_count_update v company_name s =
     (if ws_attached s then
        (let current_enrichment_counts = state_get (enrichment_counts s) [];
             entry = PDict [(''enriched'', PInt v), (''total'', PInt 1),
                            (''data'', PDict [(company_name, PInt v)]),
                            (''hasData'', PBool (0 < v))]
         in fst (send_status_update ''employee_count_ready''
                   (s\<lparr>enrichment_counts :=
                        Some (AList.update ''employeeCount'' entry current_enrichment_counts)\<rparr>)))
      else s)"

definition counts_entry :: "int \<Rightarrow> int \<Rightarrow> pyval" where
  "counts_entry e t = PDict [(''enriched'', PInt e), (''total'', PInt t)]"

definition send_enrichment_counts_update :: "research_state \<Rightarrow> research_state" where
  "send_enrichment_counts_update s =
     (if ws_attached s then
        (case (case employee_count s of
                 None \<Rightarrow> Some (PInt 0)
               | Some [] \<Rightarrow> None
               | Some ((k, v) # rest) \<Rightarrow> Some v) of
           None \<Rightarrow> s
         | Some first_count \<Rightarrow>
             (let n_company = int (len_field (company_data s));
                  n_industry = int (len_field (industry_data s));
                  n_financial = int (len_field (financial_data s));
                  n_news = int (len_field (news_data s));
                  ec = [(''company'',
                           counts_entry n_company (state_get (Company_Count s) 0 + n_company)),
                        (''employeeCount'',
                           PDict [(''enriched'', first_count), (''total'', PInt 1)]),
                        (''industry'', counts_entry n_industry n_industry),
                        (''financial'', counts_entry n_financial n_financial),
                        (''news'', counts_entry n_news n_news)]
              in fst (send_status_update ''enrichment_counts_updated''
                        (s\<lparr>enrichment_counts := Some ec\<rparr>))))
      else s)"

text \<open>\<open>state.get('company_url', company.lower().replace(' ', '-'))\<close>\<close>

definition company_name_of :: "research_state \<Rightarrow> string" where
  "company_name_of s = state_get (company s) ''Unknown Company''"

definition company_url_key :: "research_state \<Rightarrow> string" where
  "company_url_key s =
     state_get (company_url s)
       (map (\<lambda>c. if c = CHR '' '' then CHR ''-'' else c) (py_lower (company_name_of s)))"

text \<open>\<open>state['employee_count'][company_url] = value\<close>, after the key
  \<open>employee_count\<close> has been set to an empty dictionary where it was absent.\<close>

definition store_employee_count :: "string \<Rightarrow> int \<Rightarrow> research_state \<Rightarrow> research_state" where
  "store_employee_count url v s =
     s\<lparr>employee_count := Some (AList.update url (PInt v) (state_get (employee_count s) []))\<rparr>"

text \<open>
  The body of the \<open>try\<close> around the employee-count analysis in
  \<open>CompanyAnalyzer.analyze\<close>: the state when the body ends, the exception that ends it
  if any, and \<open>employee_count_value\<close>.
\<close>

definition employee_count_try ::
  "nat \<Rightarrow> string option \<Rightarrow> research_state \<Rightarrow> research_state \<times> (pyexn + int)" where
  "employee_count_try maxd response s =
     (case notify ''processing'' s of
        (s1, Some e) \<Rightarrow> (s1, Inl e)
      | (s1, None) \<Rightarrow>
          (let employee_count_raw = get_employee_count_via_llm response in
           case validate_and_process_employee_count maxd employee_count_raw of
             Inl e \<Rightarrow> (s1, Inl e)
           | Inr employee_count_value \<Rightarrow>
               (let s2 = store_employee_count (company_url_key s1) employee_count_value s1;
                    s3 = s2\<lparr>Company_Count := Some (if 0 < employee_count_value then 1 else 0)\<rparr>;
                    s4 = send_employee_count_update employee_count_value (company_name_of s3) s3
                in (send_enrichment_counts_update s4, Inr employee_count_value))))"

text \<open>The \<open>try\<close> with its handler: the state afterwards and \<open>employee_count_value\<close>.\<close>

definition employee_count_step ::
  "nat \<Rightarrow> string option \<Rightarrow> research_state \<Rightarrow> research_state \<times> int" where
  "employee_count_step maxd response s =
     (case employee_count_try maxd response s of
        (s', Inr employee_count_value) \<Rightarrow> (s', employee_count_value)
      | (s', Inl e) \<Rightarrow>
          (let employee_count_value = 100;
               s2 = store_employee_count (company_url_key s') employee_count_value s';
               s3 = s2\<lparr>Company_Count := Some 1\<rparr>
           in (send_employee_count_update employee_count_value (company_name_of s3) s3,
               employee_count_value)))"

section \<open>Example inputs\<close>

text \<open>The state with no key set, and no observer channel.\<close>

definition empty_state :: research_state where
  "empty_state =
     \<lparr>heap = (\<lambda>a. PNone), company = None, company_url = None, company_data = None,
      industry_data = None, financial_data = None, news_data = None,
      curated_company_data = None, curated_industry_data = None,
      curated_financial_data = None, curated_news_data = None, employee_count = None,
      Company_Count = None, enrichment_counts = None, enrichmentCounts = None,
      references = None, websocket_manager = None, job_id = None, ws_updates = []\<rparr>"

text \<open>A runtime: every bracketed host is accepted, no string is a float literal.\<close>

definition example_runtime :: runtime where
  "example_runtime =
     \<lparr>ip_literal_ok = (\<lambda>h. True), str_to_float = (\<lambda>s. None), format_4f = (\<lambda>x. ''?'')\<rparr>"

definition no_references :: "research_state \<Rightarrow> pyexn + reference_data" where
  "no_references s = Inr ([], [], [])"

text \<open>Two documents, with scores 0.9 (at address 0) and 0.5 (at address 1).\<close>

definition scenario_heap :: "addr \<Rightarrow> pyval" where
  "scenario_heap a =
     (if a = 0 then PDict [(''score'', PFloat (Fin 0.9))]
      else if a = 1 then PDict [(''score'', PFloat (Fin 0.5))]
      else PNone)"

text \<open>The state \<open>{'company_data': {'https://acme.com': {'employee_count':
  float('inf')}}}\<close>.\<close>

definition infinite_count_state :: research_state where
  "infinite_count_state =
     empty_state
       \<lparr>heap := (\<lambda>a. if a = 0 then PDict [(''employee_count'', PFloat PosInf)] else PNone),
        company_data := Some [(''https://acme.com'', 0)]\<rparr>"

text \<open>Two documents, with the scores \<open>0.9\<close> and \<open>2 ** 1024\<close> (an \<open>int\<close>).\<close>

definition overflow_heap :: "addr \<Rightarrow> pyval" where
  "overflow_heap a =
     (if a = 0 then PDict [(''score'', PFloat (Fin 0.9))]
      else if a = 1 then PDict [(''score'', PInt (2 ^ 1024))]
      else PNone)"


text \<open>A state whose employee counts are partly invalid (zero, a string, out of range)
  and partly need cleaning (a float), and a state whose only valid employee count is in
  a company document.\<close>

definition mixed_counts_state :: research_state where
  "mixed_counts_state =
     empty_state
       \<lparr>employee_count :=
          Some [(''acme'', PInt 5), (''b'', PInt 0), (''c'', PFloat (Fin 2.7)),
                (''d'', PStr ''12''), (''e'', PInt 20000000)]\<rparr>"

definition fallback_state :: research_state where
  "fallback_state =
     empty_state
       \<lparr>heap := (\<lambda>a. if a = 0 then PDict [(''employee_count'', PInt 1200)] else PNone),
        company_data := Some [(''https://acme.com'', 0)],
        employee_count := Some [(''acme'', PInt 0)]\<rparr>"

text \<open>The state of the deduplication scenario with one scheme: two company documents
  under \<open>https://a.com/x?ref=1\<close> and \<open>https://a.com/x\<close>.\<close>

definition scenario_state :: research_state where
  "scenario_state =
     empty_state
       \<lparr>heap := scenario_heap,
        company_data := Some [(''https://a.com/x?ref=1'', 0), (''https://a.com/x'', 1)]\<rparr>"

text \<open>A state with an observer channel whose every call raises.\<close>

definition broken_channel_state :: research_state where
  "broken_channel_state =
     empty_state
       \<lparr>company := Some ''Acme Corp'', websocket_manager := Some (\<lambda>k. Some CollaboratorError),
        job_id := Some ''job''\<rparr>"

text \<open>A state with an observer channel on which the second call raises (the first call
  of an evaluation announces it, the second reports the first document kept).\<close>

definition kept_update_fails_state :: research_state where
  "kept_update_fails_state =
     empty_state
       \<lparr>heap := scenario_heap,
        websocket_manager := Some (\<lambda>k. if k = 1 then Some CollaboratorError else None),
        job_id := Some ''job''\<rparr>"


text \<open>The state \<open>{'employee_count': {'acme': float('inf'), 'b': 0}, 'Company_Count':
  7}\<close>.\<close>

definition infinite_entry_state :: research_state where
  "infinite_entry_state =
     empty_state
       \<lparr>employee_count := Some [(''acme'', PFloat PosInf), (''b'', PInt 0)],
        Company_Count := Some 7\<rparr>"

text \<open>Five documents: score 0.5, a score that is not a number, no score, score 0.9 and
  score 0.3.\<close>

definition mixed_scores_heap :: "addr \<Rightarrow> pyval" where
  "mixed_scores_heap a =
     (if a = 0 then PDict [(''score'', PFloat (Fin 0.5))]
      else if a = 1 then PDict [(''score'', PStr ''n/a'')]
      else if a = 2 then PDict [(''title'', PStr ''no score'')]
      else if a = 3 then PDict [(''score'', PFloat (Fin 0.9))]
      else if a = 4 then PDict [(''score'', PFloat (Fin 0.3))]
      else PNone)"

section \<open>Notions used in the statements\<close>

text \<open>The validity range of an employee count, and a mapping of validated counts: a
  dictionary (no key twice) whose values are all in range.\<close>

definition in_range :: "int \<Rightarrow> bool" where
  "in_range n = (1 \<le> n \<and> n \<le> 10000000)"

definition validated :: "(string \<times> int) list \<Rightarrow> bool" where
  "validated v = (distinct (map fst v) \<and> list_all (\<lambda>(k, n). in_range n) v)"

text \<open>The three parts of \<open>build_enrichment_counts\<close>: the validated counts with their
  total, the state with the counts written back, and the snapshot.\<close>

definition wrap_counts :: "(string \<times> int) list \<Rightarrow> pydict" where
  "wrap_counts v = map (\<lambda>(url, n). (url, PInt n)) v"

definition validated_counts :: "research_state \<Rightarrow> pyexn + ((string \<times> int) list \<times> int)" where
  "validated_counts s =
     (case (if state_get (employee_count s) [] \<noteq> []
            then filter_counts (state_get (employee_count s) []) [] 0 else Inr ([], 0)) of
        Inl e \<Rightarrow> Inl e
      | Inr (valid0, total0) \<Rightarrow>
          if valid0 = [] \<and> state_get (company_data s) [] \<noteq> [] then
            (case extract_employee_count_from_company_data (heap s)
                    (state_get (company_data s) []) [] of
               Inl e \<Rightarrow> Inl e
             | Inr v \<Rightarrow> Inr (v, sum_list (map snd v)))
          else Inr (valid0, total0))"

definition write_counts :: "research_state \<Rightarrow> (string \<times> int) list \<Rightarrow> research_state" where
  "write_counts s v =
     s\<lparr>employee_count := Some (wrap_counts v), Company_Count := Some (int (length v))\<rparr>"

definition snapshot_of :: "research_state \<Rightarrow> (string \<times> int) list \<Rightarrow> int \<Rightarrow> snapshot" where
  "snapshot_of s v t =
     \<lparr>snap_company =
        \<lparr>enriched = len_field (curated_company_data s), total = len_field (company_data s)\<rparr>,
      employeeCount =
        \<lparr>emp_enriched = t, emp_total = 1, data = v, hasData = (v \<noteq> [] \<and> 0 < t),
         totalCount = t, validCounts = length v\<rparr>,
      snap_industry =
        \<lparr>enriched = len_field (curated_industry_data s), total = len_field (industry_data s)\<rparr>,
      snap_financial =
        \<lparr>enriched = len_field (curated_financial_data s), total = len_field (financial_data s)\<rparr>,
      snap_news =
        \<lparr>enriched = len_field (curated_news_data s), total = len_field (news_data s)\<rparr>\<rparr>"

text \<open>A document object that carries the normalized URL \<open>cu\<close> and the category tag
  \<open>t\<close>; the addresses of all raw documents of some categories; and two states with the
  same raw documents (the same heap and the same raw mappings).\<close>

fun is_dict :: "pyval \<Rightarrow> bool" where
  "is_dict (PDict d) = True"
| "is_dict v = False"

definition tagged :: "(addr \<Rightarrow> pyval) \<Rightarrow> string \<Rightarrow> string \<Rightarrow> addr \<Rightarrow> bool" where
  "tagged h t cu a =
     (case h a of
        PDict d \<Rightarrow> map_of d ''url'' = Some (PStr cu) \<and> map_of d ''doc_type'' = Some (PStr t)
      | _ \<Rightarrow> False)"

definition raw_addrs :: "category list \<Rightarrow> research_state \<Rightarrow> addr list" where
  "raw_addrs cs s = concat (map (\<lambda>c. map snd (raw_data c s)) cs)"

definition docs_unchanged :: "research_state \<Rightarrow> research_state \<Rightarrow> bool" where
  "docs_unchanged s s' =
     (heap s' = heap s \<and> company_data s' = company_data s \<and>
      industry_data s' = industry_data s \<and> financial_data s' = financial_data s \<and>
      news_data s' = news_data s)"

text \<open>
  The conversion of a document's score as the evaluation loop makes it; the documents
  for which a failure of that conversion stays with the document (ValueError and
  TypeError, the two classes the handler of the loop names); the evaluated document
  the loop appends for a document that passes, \<open>None\<close> for a document it drops; and an
  observer channel that is absent or never raises.
\<close>

definition doc_score :: "runtime \<Rightarrow> (addr \<Rightarrow> pyval) \<Rightarrow> addr \<Rightarrow> pyexn + pyfloat" where
  "doc_score R h a =
     (case h a of
        PDict d \<Rightarrow> py_float R (dict_get d ''score'' (PInt 0))
      | _ \<Rightarrow> Inl AttributeError)"

definition score_error_is_local :: "runtime \<Rightarrow> (addr \<Rightarrow> pyval) \<Rightarrow> addr \<Rightarrow> bool" where
  "score_error_is_local R h a =
     (case doc_score R h a of Inl e \<Rightarrow> e = ValueError \<or> e = TypeError | Inr x \<Rightarrow> True)"

definition evaluate_one :: "runtime \<Rightarrow> (addr \<Rightarrow> pyval) \<Rightarrow> addr \<Rightarrow> evaluated_doc option" where
  "evaluate_one R h a =
     (case h a of
        PDict d \<Rightarrow>
          (case py_float R (dict_get d ''score'' (PInt 0)) of
             Inr x \<Rightarrow>
               if float_ge x relevance_threshold then
                 Some \<lparr>doc_fields = d,
                       evaluation =
                         \<lparr>overall_score = x, eval_query = dict_get d ''query'' (PStr []),
                          relevance_reason =
                            ''Score '' @ format_4f R x @ '' meets threshold 0.4''\<rparr>\<rparr>
               else None
           | Inl e \<Rightarrow> None)
      | _ \<Rightarrow> None)"

definition channel_reliable :: "research_state \<Rightarrow> bool" where
  "channel_reliable s = (\<forall>outcome k. websocket_manager s = Some outcome \<longrightarrow> outcome k = None)"

text \<open>A count that is \<open>float('inf')\<close>, in \<open>employee_count\<close> or as the \<open>employee_count\<close>
  of a company document.\<close>

definition infinite_in_doc :: "(addr \<Rightarrow> pyval) \<Rightarrow> addr \<Rightarrow> bool" where
  "infinite_in_doc h a =
     (case h a of
        PDict d \<Rightarrow> map_of d ''employee_count'' = Some (PFloat PosInf)
      | _ \<Rightarrow> False)"

definition no_infinite_count :: "research_state \<Rightarrow> bool" where
  "no_infinite_count s =
     (PFloat PosInf \<notin> snd ` set (state_get (employee_count s) []) \<and>
      \<not> list_ex (infinite_in_doc (heap s)) (map snd (state_get (company_data s) [])))"

text \<open>A string without the marks of a query and of a fragment.\<close>

definition plain :: "string \<Rightarrow> bool" where
  "plain s = (CHR ''?'' \<notin> set s \<and> CHR ''#'' \<notin> set s)"

(* Properties *)

section \<open>Properties of the fact validator\<close>

lemma validate_body_cases:
  "validate_body maxd raw = Inl ValueError \<or> validate_body maxd raw = Inr 1 \<or>
   (validate_body maxd raw = Inr (dec_value (answer_digits raw)) \<and>
    1 \<le> dec_value (answer_digits raw) \<and> dec_value (answer_digits raw) \<le> 10000000)"
  by (simp add: validate_body_def answer_digits_def py_int_of_digits_def Let_def)

lemma validate_cases:
  "validate_and_process_employee_count maxd raw = Inr 1 \<or>
   (validate_and_process_employee_count maxd raw = Inr (dec_value (answer_digits raw)) \<and>
    1 \<le> dec_value (answer_digits raw) \<and> dec_value (answer_digits raw) \<le> 10000000)"
  using validate_body_cases [of maxd raw]
  by (auto simp: validate_and_process_employee_count_def)

lemma validate_no_digits:
  "answer_digits raw = [] \<Longrightarrow> validate_and_process_employee_count maxd raw = Inr 1"
  by (simp add: validate_and_process_employee_count_def validate_body_def answer_digits_def)

lemma validate_out_of_range:
  "\<not> (1 \<le> dec_value (answer_digits raw) \<and> dec_value (answer_digits raw) \<le> 10000000) \<Longrightarrow>
   validate_and_process_employee_count maxd raw = Inr 1"
  using validate_cases [of maxd raw] by blast

lemma answer_digits_1200: "answer_digits ''1200 (2023)'' = ''1200''"
  by (simp add: answer_digits_def split_first_def strip_def is_space_def is_digit_def)

lemma answer_digits_unknown: "answer_digits ''unknown'' = []"
  by (simp add: answer_digits_def split_first_def strip_def is_space_def is_digit_def)

lemma answer_digits_50000000: "answer_digits ''50000000'' = ''50000000''"
  by (simp add: answer_digits_def split_first_def strip_def is_space_def is_digit_def)

lemma validate_of_digits:
  "answer_digits raw = ds \<Longrightarrow> ds \<noteq> [] \<Longrightarrow> length ds \<le> 640 \<Longrightarrow>
   validate_and_process_employee_count maxd raw =
     Inr (if 1 \<le> dec_value ds \<and> dec_value ds \<le> 10000000 then dec_value ds else 1)"
  by (auto simp: validate_and_process_employee_count_def validate_body_def answer_digits_def
      py_int_of_digits_def Let_def)

text \<open>
  C4. For every answer string and every setting of the interpreter's digit limit, the
  validator returns, without raising, an integer between 1 and 10,000,000, which is
  either the number read from the digits before the first parenthesis or the fallback
  1. The answer \<open>1200 (2023)\<close> gives 1200; an answer without digits (\<open>unknown\<close>) and
  an answer whose number is out of range (\<open>50000000\<close>) give the fallback 1.
\<close>

theorem validate_employee_count_in_range:
  "(\<exists>n. validate_and_process_employee_count maxd raw = Inr n \<and> 1 \<le> n \<and> n \<le> 10000000 \<and>
        (n = 1 \<or> n = dec_value (answer_digits raw))) \<and>
   validate_and_process_employee_count maxd ''1200 (2023)'' = Inr 1200 \<and>
   validate_and_process_employee_count maxd ''unknown'' = Inr 1 \<and>
   validate_and_process_employee_count maxd ''50000000'' = Inr 1 \<and>
   (answer_digits raw = [] \<longrightarrow> validate_and_process_employee_count maxd raw = Inr 1) \<and>
   (\<not> (1 \<le> dec_value (answer_digits raw) \<and> dec_value (answer_digits raw) \<le> 10000000) \<longrightarrow>
      validate_and_process_employee_count maxd raw = Inr 1)"
proof -
  have general: "\<exists>n. validate_and_process_employee_count maxd raw = Inr n \<and> 1 \<le> n \<and>
      n \<le> 10000000 \<and> (n = 1 \<or> n = dec_value (answer_digits raw))"
    using validate_cases [of maxd raw] by auto
  have a: "validate_and_process_employee_count maxd ''1200 (2023)'' = Inr 1200"
    using validate_of_digits [OF answer_digits_1200, of maxd]
    by (simp add: dec_value_def digit_val_def)
  have b: "validate_and_process_employee_count maxd ''unknown'' = Inr 1"
    by (rule validate_no_digits [OF answer_digits_unknown])
  have c: "validate_and_process_employee_count maxd ''50000000'' = Inr 1"
    using validate_of_digits [OF answer_digits_50000000, of maxd]
    by (simp add: dec_value_def digit_val_def)
  show ?thesis
    using general a b c validate_no_digits [of raw maxd] validate_out_of_range [of raw maxd]
    by blast
qed

theorem validate_employee_count_in_range_witness:
  "answer_digits ''unknown'' = [] \<and>
   validate_and_process_employee_count 4300 ''unknown'' = Inr 1 \<and>
   dec_value (answer_digits ''50000000'') = 50000000 \<and>
   validate_and_process_employee_count 4300 ''50000000'' = Inr 1 \<and>
   validate_and_process_employee_count 4300 ''1200 (2023)'' = Inr 1200"
  using validate_employee_count_in_range [of 4300 "''unknown''"]
    validate_employee_count_in_range [of 4300 "''50000000''"]
  by (simp add: answer_digits_unknown answer_digits_50000000 dec_value_def digit_val_def)

section \<open>Properties of URL normalization and deduplication\<close>

lemmas url_defs = clean_url_of_def urlparse_def urlsplit_def geturl_def partition_at_def
  is_ascii_alpha_def is_scheme_char_def is_digit_def py_lower_def py_lower_char_def
  uses_params_def uses_netloc_def splitparams_def after_last_def bracketed_host_def

lemma clean_url_http_ref: "clean_url_of R ''http://a.com/x?ref=1'' = Inr ''http://a.com/x''"
  by (simp add: url_defs Let_def)

lemma clean_url_https: "clean_url_of R ''https://a.com/x'' = Inr ''https://a.com/x''"
  by (simp add: url_defs Let_def)

lemma clean_url_https_ref: "clean_url_of R ''https://a.com/x?ref=1'' = Inr ''https://a.com/x''"
  by (simp add: url_defs Let_def)

lemma clean_url_no_scheme: "clean_url_of R ''a.com/x?ref=1'' = Inr ''a.com/x''"
  by (simp add: url_defs Let_def)

lemma clean_url_acme: "clean_url_of R ''https://acme.com'' = Inr ''https://acme.com''"
  by (simp add: url_defs Let_def)

text \<open>One round of the deduplication loop, in terms of the normalized key.\<close>

lemma dedup_step_clean:
  "dedup_step R t (h, u) (url, a) =
     (case clean_url_of R url of
        Inl e \<Rightarrow> (h, u)
      | Inr cu \<Rightarrow>
          if map_of u cu = None then
            (case set_item a ''url'' (PStr cu) h of
               Inl e \<Rightarrow> (h, u)
             | Inr h1 \<Rightarrow>
                 (case set_item a ''doc_type'' (PStr t) h1 of
                    Inl e \<Rightarrow> (h1, u)
                  | Inr h2 \<Rightarrow> (h2, AList.update cu a u)))
          else (h, u))"
  by (simp add: dedup_step_def clean_url_of_def Let_def split: sum.splits)

lemma dedup_http_https:
  "dedup R t scenario_heap [(''http://a.com/x?ref=1'', 0), (''https://a.com/x'', 1)] =
     (scenario_heap
        (0 := PDict [(''score'', PFloat (Fin 0.9)), (''url'', PStr ''http://a.com/x''),
                     (''doc_type'', PStr t)],
         1 := PDict [(''score'', PFloat (Fin 0.5)), (''url'', PStr ''https://a.com/x''),
                     (''doc_type'', PStr t)]),
      [(''http://a.com/x'', 0), (''https://a.com/x'', 1)])"
  by (simp add: dedup_def dedup_step_clean clean_url_http_ref clean_url_https set_item_def
      scenario_heap_def)

lemma dedup_https_https:
  "dedup R t scenario_heap [(''https://a.com/x?ref=1'', 0), (''https://a.com/x'', 1)] =
     (scenario_heap
        (0 := PDict [(''score'', PFloat (Fin 0.9)), (''url'', PStr ''https://a.com/x''),
                     (''doc_type'', PStr t)]),
      [(''https://a.com/x'', 0)])"
  by (simp add: dedup_def dedup_step_clean clean_url_https_ref clean_url_https set_item_def
      scenario_heap_def)

text \<open>
  C1, as the code has it. The two keys of the scenario, \<open>http://a.com/x?ref=1\<close> and
  \<open>https://a.com/x\<close>, are normalized to two different keys, because the scheme is
  kept: both documents survive. With the same scheme on both keys
  (\<open>https://a.com/x?ref=1\<close> and \<open>https://a.com/x\<close>) exactly one candidate survives,
  the first by iteration order (the document with score 0.9, at address 0), keyed by
  \<open>https://a.com/x\<close>.
\<close>

theorem dedup_scenario_same_scheme:
  "snd (dedup R t scenario_heap [(''https://a.com/x?ref=1'', 0), (''https://a.com/x'', 1)]) =
     [(''https://a.com/x'', 0)] \<and>
   snd (dedup R t scenario_heap [(''http://a.com/x?ref=1'', 0), (''https://a.com/x'', 1)]) =
     [(''http://a.com/x'', 0), (''https://a.com/x'', 1)]"
  using dedup_http_https [of R t] dedup_https_https [of R t] by simp

text \<open>
  C1, as the specification states it, fails: on the mapping of the scenario the
  deduplication keeps two candidates, not the single candidate keyed by
  \<open>https://a.com/x\<close>.
\<close>

theorem dedup_scenario_counterexample:
  "snd (dedup example_runtime ''company'' scenario_heap
          [(''http://a.com/x?ref=1'', 0), (''https://a.com/x'', 1)]) \<noteq> [(''https://a.com/x'', 0)] \<and>
   length (snd (dedup example_runtime ''company'' scenario_heap
          [(''http://a.com/x?ref=1'', 0), (''https://a.com/x'', 1)])) = 2"
  using dedup_http_https [of example_runtime "''company''"] by simp

text \<open>
  Whatever the raw URL, the normalized key holds neither a query nor a fragment: no
  question mark and no hash sign is left in it.
\<close>

lemma plain_simps [simp]:
  "plain []" "plain (x # xs) = (x \<noteq> CHR ''?'' \<and> x \<noteq> CHR ''#'' \<and> plain xs)"
  "plain (xs @ ys) = (plain xs \<and> plain ys)"
  by (auto simp: plain_def)

lemma plain_takeWhile_sep: "plain (takeWhile (\<lambda>c. c \<notin> set ''/?#'') s)"
  by (induction s) (auto simp: plain_def)

lemma plain_takeWhile_sep':
  "plain (takeWhile (\<lambda>c. c \<noteq> CHR ''/'' \<and> c \<noteq> CHR ''?'' \<and> c \<noteq> CHR ''#'') s)"
  by (induction s) (auto simp: plain_def)

lemma plain_subset: "set a \<subseteq> set b \<Longrightarrow> plain b \<Longrightarrow> plain a"
  by (auto simp: plain_def)

lemma plain_path: "plain (takeWhile (\<lambda>c. c \<noteq> CHR ''?'') (takeWhile (\<lambda>c. c \<noteq> CHR ''#'') s))"
proof -
  have "CHR ''?'' \<notin> set (takeWhile (\<lambda>c. c \<noteq> CHR ''?'') t)" for t
    by (induction t) auto
  moreover have "CHR ''#'' \<notin> set (takeWhile (\<lambda>c. c \<noteq> CHR ''#'') s)"
    by (induction s) auto
  then have "CHR ''#'' \<notin> set (takeWhile (\<lambda>c. c \<noteq> CHR ''?'') (takeWhile (\<lambda>c. c \<noteq> CHR ''#'') s))"
    by (meson set_takeWhileD)
  ultimately show ?thesis by (simp add: plain_def)
qed

lemma py_lower_char_code:
  "(of_char (py_lower_char c) :: nat) =
     (if (65 \<le> (of_char c :: nat) \<and> (of_char c :: nat) \<le> 90) \<or>
         (192 \<le> (of_char c :: nat) \<and> (of_char c :: nat) \<le> 222 \<and> (of_char c :: nat) \<noteq> 215)
      then of_char c + 32 else of_char c)"
  by (simp add: py_lower_char_def Let_def of_char_of)

lemma py_lower_char_plain:
  "c \<noteq> CHR ''?'' \<Longrightarrow> c \<noteq> CHR ''#'' \<Longrightarrow>
   py_lower_char c \<noteq> CHR ''?'' \<and> py_lower_char c \<noteq> CHR ''#''"
proof -
  assume c: "c \<noteq> CHR ''?''" "c \<noteq> CHR ''#''"
  have "(of_char c :: nat) \<noteq> of_char CHR ''?''" "(of_char c :: nat) \<noteq> of_char CHR ''#''"
    using c by (simp_all only: of_char_eq_iff not_False_eq_True)
  then have q: "(of_char c :: nat) \<noteq> 63" "(of_char c :: nat) \<noteq> 35"
    by simp_all
  have "(of_char (py_lower_char c) :: nat) \<noteq> 63 \<and> (of_char (py_lower_char c) :: nat) \<noteq> 35"
    using q by (auto simp: py_lower_char_code)
  then show ?thesis by auto
qed


lemma plain_py_lower: "plain s \<Longrightarrow> plain (py_lower s)"
  by (induction s) (auto simp: py_lower_def dest: py_lower_char_plain)

lemma plain_take: "plain s \<Longrightarrow> plain (take n s)"
  by (auto simp: plain_def dest: in_set_takeD)

lemma plain_drop: "plain s \<Longrightarrow> plain (drop n s)"
  by (auto simp: plain_def dest: in_set_dropD)

lemma plain_takeWhile: "plain s \<Longrightarrow> plain (takeWhile P s)"
  by (auto simp: plain_def dest: set_takeWhileD)

lemma plain_dropWhile: "plain s \<Longrightarrow> plain (dropWhile P s)"
  by (auto simp: plain_def dest: set_dropWhileD)

lemma plain_rev [simp]: "plain (rev s) = plain s"
  by (simp add: plain_def)

lemma plain_scheme_prefix:
  "list_all is_scheme_char pre \<Longrightarrow> plain pre"
  by (induction pre) (auto simp: is_scheme_char_def is_ascii_alpha_def is_digit_def Let_def)

lemma urlsplit_plain:
  assumes "urlsplit R url = Inr r"
  shows "plain (scheme r) \<and> plain (netloc r) \<and> plain (path r) \<and> params r = []"
proof -
  define u2 where "u2 = filter (\<lambda>c. (of_char c :: nat) \<notin> {9, 10, 13})
                         (dropWhile (\<lambda>c. (of_char c :: nat) \<le> 32) url)"
  define pre where "pre = takeWhile (\<lambda>c. c \<noteq> CHR '':'') u2"
  define has_scheme where "has_scheme = (CHR '':'' \<in> set u2 \<and> pre \<noteq> [] \<and>
      is_ascii_alpha (hd u2) \<and> list_all is_scheme_char pre)"
  define u3 where "u3 = (if has_scheme then drop (length pre + 1) u2 else u2)"
  define has_netloc where "has_netloc = (take 2 u3 = ''//'')"
  define nl where "nl = (if has_netloc then takeWhile (\<lambda>c. c \<notin> set ''/?#'') (drop 2 u3) else [])"
  define u4 where "u4 = (if has_netloc then dropWhile (\<lambda>c. c \<notin> set ''/?#'') (drop 2 u3) else u3)"
  have unfold: "urlsplit R url =
    (if has_netloc \<and> (CHR ''['' \<in> set nl) \<noteq> (CHR '']'' \<in> set nl) then Inl ValueError
     else if has_netloc \<and> CHR ''['' \<in> set nl \<and> CHR '']'' \<in> set nl \<and>
             \<not> ip_literal_ok R (bracketed_host nl) then Inl ValueError
     else Inr \<lparr>scheme = (if has_scheme then py_lower pre else []), netloc = nl,
               path = takeWhile (\<lambda>c. c \<noteq> CHR ''?'') (takeWhile (\<lambda>c. c \<noteq> CHR ''#'') u4),
               params = [],
               query = drop 1 (dropWhile (\<lambda>c. c \<noteq> CHR ''?'') (takeWhile (\<lambda>c. c \<noteq> CHR ''#'') u4)),
               fragment = drop 1 (dropWhile (\<lambda>c. c \<noteq> CHR ''#'') u4)\<rparr>)"
    unfolding urlsplit_def Let_def partition_at_def prod.case
      u2_def [symmetric] pre_def [symmetric] has_scheme_def [symmetric] u3_def [symmetric]
      has_netloc_def [symmetric] nl_def [symmetric] u4_def [symmetric]
    by (rule refl)
  have sch: "plain (if has_scheme then py_lower pre else [])"
    by (simp add: has_scheme_def plain_py_lower plain_scheme_prefix)
  have nlp: "plain nl"
    by (simp add: nl_def plain_takeWhile_sep')
  from assms [unfolded unfold] sch nlp show ?thesis
    by (auto simp: plain_path split: if_splits)
qed

lemma splitparams_plain:
  "plain p \<Longrightarrow> plain (fst (splitparams p)) \<and> plain (snd (splitparams p))"
  by (auto simp: splitparams_def Let_def after_last_def plain_take plain_drop plain_takeWhile
      plain_dropWhile)

lemma urlparse_plain:
  assumes "urlparse R url = Inr r"
  shows "plain (scheme r) \<and> plain (netloc r) \<and> plain (path r) \<and> plain (params r)"
proof -
  from assms obtain r0 where r0: "urlsplit R url = Inr r0"
    by (auto simp: urlparse_def split: sum.splits)
  note P = urlsplit_plain [OF r0]
  from assms r0 P splitparams_plain [of "path r0"] show ?thesis
    by (auto simp: urlparse_def Let_def split: if_splits prod.splits)
qed

lemma geturl_plain:
  "plain (scheme r) \<Longrightarrow> plain (netloc r) \<Longrightarrow> plain (path r) \<Longrightarrow> plain (params r) \<Longrightarrow>
   query r = [] \<Longrightarrow> fragment r = [] \<Longrightarrow> plain (geturl r)"
  by (simp add: geturl_def Let_def)

lemma clean_url_has_no_query_or_fragment:
  assumes "clean_url_of R url = Inr cu"
  shows "CHR ''?'' \<notin> set cu \<and> CHR ''#'' \<notin> set cu"
proof -
  from assms obtain parsed where p: "urlparse R url = Inr parsed"
    and cu: "cu = geturl (parsed\<lparr>query := [], fragment := []\<rparr>)"
    by (auto simp: clean_url_of_def split: sum.splits)
  from urlparse_plain [OF p] have "plain cu"
    unfolding cu by (intro geturl_plain) simp_all
  then show ?thesis by (simp add: plain_def)
qed


text \<open>
  C2, at the failing input: for the raw URL \<open>a.com/x?ref=1\<close>, which has no scheme, the
  key under which the document is kept is \<open>a.com/x\<close>. The query is removed, but no
  scheme is added.
\<close>

theorem dedup_key_without_scheme:
  "clean_url_of R ''a.com/x?ref=1'' = Inr ''a.com/x'' \<and>
   snd (dedup R t scenario_heap [(''a.com/x?ref=1'', 0)]) = [(''a.com/x'', 0)]"
  by (simp add: dedup_def dedup_step_clean clean_url_no_scheme set_item_def scenario_heap_def)

section \<open>Properties of the evaluation\<close>

lemma notify_reliable:
  assumes "channel_reliable s"
  shows "snd (notify st s) = None \<and> heap (fst (notify st s)) = heap s \<and>
         channel_reliable (fst (notify st s))"
  using assms
  by (auto simp: notify_def send_status_update_def channel_reliable_def split: option.splits)

lemma eval_loop_reliable:
  assumes "channel_reliable s" and "\<forall>a \<in> set docs. score_error_is_local R (heap s) a"
  shows "snd (eval_loop R docs s acc) =
           Inr (acc @ List.map_filter (evaluate_one R (heap s)) docs)"
  using assms
proof (induction docs arbitrary: s acc)
  case Nil
  then show ?case by (simp add: List.map_filter_simps)
next
  case (Cons a docs)
  have loc: "score_error_is_local R (heap s) a"
    and rest: "\<forall>b \<in> set docs. score_error_is_local R (heap s) b"
    using Cons.prems(2) by simp_all
  obtain s1 r1 where n: "notify ''document_kept'' s = (s1, r1)"
    by (cases "notify ''document_kept'' s")
  from notify_reliable [OF Cons.prems(1), of "''document_kept''"] n
  have r1: "r1 = None" and h1: "heap s1 = heap s" and c1: "channel_reliable s1" by simp_all
  note IH0 = Cons.IH [OF Cons.prems(1) rest]
  note IH1 = Cons.IH [OF c1 rest [folded h1], unfolded h1]
  show ?case
  proof (cases "heap s a")
    case (PDict d)
    show ?thesis
    proof (cases "py_float R (dict_get d ''score'' (PInt 0))")
      case (Inl e)
      with loc PDict have "e = ValueError \<or> e = TypeError"
        by (simp add: score_error_is_local_def doc_score_def)
      with PDict Inl IH0 [of acc] show ?thesis
        by (auto simp: List.map_filter_simps evaluate_one_def)
    next
      case (Inr x)
      show ?thesis
      proof (cases "float_ge x relevance_threshold")
        case True
        with PDict Inr n r1 IH1 show ?thesis
          by (simp add: List.map_filter_simps evaluate_one_def Let_def)
      next
        case False
        with PDict Inr IH0 [of acc] show ?thesis
          by (simp add: List.map_filter_simps evaluate_one_def)
      qed
    qed
  qed (use loc in \<open>simp_all add: score_error_is_local_def doc_score_def\<close>)
qed

text \<open>
  C8, as the code has it. With an observer channel that is absent or never raises, and
  for a batch in which the conversion of a score raises nothing but ValueError or
  TypeError, \<open>evaluate_documents\<close> returns exactly the documents whose score converts to
  a float of at least 0.4, each with its evaluation, in descending order of the score
  (equal scores in the order of the batch). A document whose score is missing, is not a
  number or is below 0.4 is dropped, and the other documents stay.
\<close>

theorem evaluate_documents_retains_passing:
  assumes "channel_reliable s" and "\<forall>a \<in> set docs. score_error_is_local R (heap s) a"
  shows "snd (evaluate_documents R s docs) =
           Inr (sort_desc (\<lambda>x. overall_score (evaluation x))
                  (List.map_filter (evaluate_one R (heap s)) docs))"
proof -
  obtain s0 r0 where n: "notify ''processing'' s = (s0, r0)"
    by (cases "notify ''processing'' s")
  from notify_reliable [OF assms(1), of "''processing''"] n
  have r0: "r0 = None" and h0: "heap s0 = heap s" and c0: "channel_reliable s0" by simp_all
  have l: "snd (eval_loop R docs s0 []) = Inr (List.map_filter (evaluate_one R (heap s)) docs)"
    using eval_loop_reliable [OF c0 assms(2) [folded h0], of "[]"] by (simp add: h0)
  show ?thesis
  proof (cases "docs = []")
    case True
    with n r0 show ?thesis
      by (simp add: evaluate_documents_def List.map_filter_simps sort_desc_def)
  next
    case False
    obtain s1 r1 where e: "eval_loop R docs s0 [] = (s1, r1)" by (cases "eval_loop R docs s0 []")
    with l have "r1 = Inr (List.map_filter (evaluate_one R (heap s)) docs)" by simp
    with n r0 False e show ?thesis by (simp add: evaluate_documents_def)
  qed
qed

theorem evaluate_documents_retains_passing_witness:
  "channel_reliable (empty_state\<lparr>heap := mixed_scores_heap\<rparr>) \<and>
   list_all (score_error_is_local example_runtime mixed_scores_heap) [0, 1, 2, 3, 4] \<and>
   map doc_fields
     (projr (snd (evaluate_documents example_runtime (empty_state\<lparr>heap := mixed_scores_heap\<rparr>)
                    [0, 1, 2, 3, 4]))) =
     [[(''score'', PFloat (Fin 0.9))], [(''score'', PFloat (Fin 0.5))]]"
proof -
  let ?s = "empty_state\<lparr>heap := mixed_scores_heap\<rparr>"
  have c: "channel_reliable ?s"
    by (simp add: channel_reliable_def empty_state_def)
  have l: "\<forall>a \<in> set [0, 1, 2, 3, 4]. score_error_is_local example_runtime (heap ?s) a"
    by (simp add: score_error_is_local_def doc_score_def mixed_scores_heap_def dict_get_def
        example_runtime_def round_double_def empty_state_def)
  have m: "List.map_filter (evaluate_one example_runtime mixed_scores_heap) [0, 1, 2, 3, 4] =
     [the (evaluate_one example_runtime mixed_scores_heap 0),
      the (evaluate_one example_runtime mixed_scores_heap 3)]"
    by (simp add: List.map_filter_simps evaluate_one_def mixed_scores_heap_def dict_get_def
        example_runtime_def round_double_def relevance_threshold_def)
  have h: "heap ?s = mixed_scores_heap" by (simp add: empty_state_def)
  from evaluate_documents_retains_passing [OF c l] c l show ?thesis
    unfolding h m
    by (simp add: evaluate_one_def mixed_scores_heap_def dict_get_def relevance_threshold_def
        sort_desc_def score_error_is_local_def doc_score_def example_runtime_def
        round_double_def)
qed


text \<open>
  C8, as the specification states it, fails: the document at address 0 has the score
  0.9, which is at least 0.4, and the evaluation of the batch that holds just this
  document returns the empty list, because the notification about the kept document
  raises and the outer handler of \<open>evaluate_documents\<close> answers every exception of the
  loop with the empty result.
\<close>

theorem evaluate_documents_counterexample:
  "doc_score example_runtime (heap kept_update_fails_state) 0 = Inr (Fin 0.9) \<and>
   float_ge (Fin 0.9) relevance_threshold \<and>
   snd (evaluate_documents example_runtime kept_update_fails_state [0]) = Inr []"
  by (simp add: doc_score_def kept_update_fails_state_def empty_state_def scenario_heap_def
      dict_get_def relevance_threshold_def evaluate_documents_def notify_def ws_attached_def
      send_status_update_def Let_def)

text \<open>
  The batches that the statement above leaves out: with the scores \<open>0.9\<close> and
  \<open>2 ** 1024\<close>, the conversion of the second score raises OverflowError, which the
  handler of the loop does not name; the outer handler returns the empty list, and the
  first document is lost with it. Alone, the first document is kept.
\<close>

lemma evaluate_documents_overflow_loses_batch:
  "snd (evaluate_documents R (empty_state\<lparr>heap := overflow_heap\<rparr>) [0, 1]) = Inr [] \<and>
   snd (evaluate_documents R (empty_state\<lparr>heap := overflow_heap\<rparr>) [0]) =
     Inr [\<lparr>doc_fields = [(''score'', PFloat (Fin 0.9))],
           evaluation =
             \<lparr>overall_score = Fin 0.9, eval_query = PStr [],
              relevance_reason =
                ''Score '' @ format_4f R (Fin 0.9) @ '' meets threshold 0.4''\<rparr>\<rparr>]"
  by (simp add: evaluate_documents_def empty_state_def overflow_heap_def notify_def
      ws_attached_def dict_get_def relevance_threshold_def Let_def sort_desc_def)

section \<open>Properties of the task loop\<close>

lemma get_curated_notify: "notify st s = (s', r) \<Longrightarrow> get_curated c s' = get_curated c s"
  by (cases c) (auto simp: notify_def send_status_update_def split: if_splits option.splits)

text \<open>What the notifications leave alone, the evaluation loop leaves alone.\<close>

lemma eval_loop_frame:
  assumes pres: "\<And>st s s' r. notify st s = (s', r) \<Longrightarrow> f s' = f s"
  shows "f (fst (eval_loop R docs s acc)) = f s"
proof (induction docs arbitrary: s acc)
  case Nil
  then show ?case by simp
next
  case (Cons a docs)
  obtain s1 r1 where n: "notify ''document_kept'' s = (s1, r1)"
    by (cases "notify ''document_kept'' s")
  have f1: "f s1 = f s" by (rule pres [OF n])
  show ?case
  proof (cases "heap s a")
    case (PDict d)
    show ?thesis
    proof (cases "py_float R (dict_get d ''score'' (PInt 0))")
      case (Inl e)
      with PDict Cons.IH [of s acc] show ?thesis by simp
    next
      case (Inr x)
      show ?thesis
      proof (cases "float_ge x relevance_threshold")
        case False
        with PDict Inr Cons.IH [of s acc] show ?thesis by simp
      next
        case True
        with PDict Inr n f1 Cons.IH [of s1] show ?thesis
          by (cases r1) (simp_all add: Let_def)
      qed
    qed
  qed simp_all
qed


text \<open>
  The two notifications in front of the evaluation loop of a category, the start of the
  category in \<open>curate_data\<close> and the first notification of \<open>evaluate_documents\<close>,
  are in no \<open>try\<close>: an exception of either ends the task loop, with the counts and the
  curated sets as they were.
\<close>

lemma process_tasks_category_start_raises:
  "notify ''category_start'' s = (s1, Some e) \<Longrightarrow>
   process_tasks R ((c, urls, docs) # tasks) s dc = ((s1, dc), Some e)"
  by simp

lemma process_tasks_entry_update_raises:
  "notify ''category_start'' s = (s1, None) \<Longrightarrow> notify ''processing'' s1 = (s2, Some e) \<Longrightarrow>
   process_tasks R ((c, urls, docs) # tasks) s dc = ((s2, dc), Some e) \<and>
   get_curated c' s2 = get_curated c' s"
  using get_curated_notify [of "''category_start''" s s1 None c']
    get_curated_notify [of "''processing''" s1 s2 "Some e" c']
  by (simp add: evaluate_documents_def)




section \<open>Properties of the enrichment accounting\<close>

lemma build_enrichment_counts_eq:
  "build_enrichment_counts s =
     (case validated_counts s of
        Inl e \<Rightarrow> Inl e
      | Inr (v, t) \<Rightarrow> Inr (write_counts s v, snapshot_of s v t))"
  by (auto simp: build_enrichment_counts_def validated_counts_def write_counts_def
      snapshot_of_def wrap_counts_def len_field_def Let_def split: sum.splits prod.splits)

lemma set_update_subset: "set (AList.update k v al) \<subseteq> insert (k, v) (set al)"
  by (induction al) auto

lemma update_fresh: "k \<notin> fst ` set al \<Longrightarrow> AList.update k v al = al @ [(k, v)]"
  by (induction al) auto

lemma validated_update:
  "validated acc \<Longrightarrow> in_range n \<Longrightarrow> validated (AList.update k n acc)"
  using set_update_subset [of k n acc]
  by (auto simp: validated_def list_all_iff distinct_update)

lemma filter_counts_validated:
  "filter_counts d acc t = Inr (v, t') \<Longrightarrow> validated acc \<Longrightarrow> validated v"
proof (induction d acc t rule: filter_counts.induct)
  case (1 acc t)
  then show ?case by simp
next
  case (2 url c rest acc t)
  then show ?case
    by (auto simp: validated_update in_range_def split: if_splits sum.splits)
qed

lemma extract_validated:
  "extract_employee_count_from_company_data h raw acc = Inr v \<Longrightarrow> validated acc \<Longrightarrow>
   validated v"
proof (induction h raw acc rule: extract_employee_count_from_company_data.induct)
  case (1 h acc)
  then show ?case by simp
next
  case (2 h url a rest acc)
  then show ?case
    by (auto simp: validated_update in_range_def
        split: if_splits sum.splits pyval.splits option.splits)
qed

lemma filter_counts_total:
  "filter_counts d acc t = Inr (v, t') \<Longrightarrow> distinct (map fst d) \<Longrightarrow>
   fst ` set d \<inter> fst ` set acc = {} \<Longrightarrow>
   t' + sum_list (map snd acc) = t + sum_list (map snd v)"
proof (induction d acc t rule: filter_counts.induct)
  case (1 acc t)
  then show ?case by simp
next
  case (2 url c rest acc t)
  have fresh: "url \<notin> fst ` set acc" using "2.prems"(3) by auto
  show ?case
  proof (cases "is_int_or_float c \<and> gt_zero c")
    case False
    with "2.prems" "2.IH"(3) show ?thesis by auto
  next
    case True
    then obtain n where n: "int_of_number c = Inr n"
      using "2.prems"(1) by (auto split: sum.splits)
    show ?thesis
    proof (cases "1 \<le> n \<and> n \<le> 10000000")
      case False
      with True n "2.prems" "2.IH"(2) [OF True n] show ?thesis by auto
    next
      case inr: True
      have run: "filter_counts rest (AList.update url n acc) (t + n) = Inr (v, t')"
        using "2.prems"(1) True n inr by simp
      have disj: "fst ` set rest \<inter> fst ` set (AList.update url n acc) = {}"
        using "2.prems"(2,3) by (auto simp: dom_update)
      have "t' + sum_list (map snd (AList.update url n acc)) = (t + n) + sum_list (map snd v)"
        using "2.IH"(1) [OF True n inr run _ disj] "2.prems"(2) by simp
      then show ?thesis by (simp add: update_fresh [OF fresh])
    qed
  qed
qed

lemma filter_counts_wrap:
  "validated xs \<Longrightarrow> fst ` set xs \<inter> fst ` set acc = {} \<Longrightarrow>
   filter_counts (wrap_counts xs) acc t = Inr (acc @ xs, t + sum_list (map snd xs))"
proof (induction xs arbitrary: acc t)
  case Nil
  then show ?case by (simp add: wrap_counts_def)
next
  case (Cons x xs)
  obtain k n where x: "x = (k, n)" by (cases x)
  have fresh: "k \<notin> fst ` set acc" using Cons.prems(2) x by auto
  have v: "validated xs" and r: "in_range n" and kx: "k \<notin> fst ` set xs"
    using Cons.prems(1) x by (auto simp: validated_def)
  have disj: "fst ` set xs \<inter> fst ` set (acc @ [(k, n)]) = {}"
    using Cons.prems(2) kx x by auto
  show ?case
    using Cons.IH [OF v disj, of "t + n"] r
    by (simp add: x wrap_counts_def update_fresh [OF fresh] in_range_def)
qed


lemma validated_Nil: "validated []"
  by (simp add: validated_def)

lemma validated_counts_validated:
  "validated_counts s = Inr (v, t) \<Longrightarrow> validated v"
  by (auto simp: validated_counts_def validated_Nil
      split: if_splits sum.splits prod.splits
      dest: filter_counts_validated extract_validated)

lemma validated_counts_total:
  assumes "validated_counts s = Inr (v, t)"
      and "distinct (map fst (state_get (employee_count s) []))"
  shows "t = sum_list (map snd v)"
proof -
  have f: "filter_counts (state_get (employee_count s) []) [] 0 = Inr (v0, t0) \<Longrightarrow>
           t0 = sum_list (map snd v0)" for v0 t0
    using filter_counts_total [of "state_get (employee_count s) []" "[]" 0 v0 t0] assms(2)
    by simp
  from assms(1) show ?thesis
    by (auto simp: validated_counts_def split: if_splits sum.splits prod.splits dest: f)
qed

lemma wrap_counts_Nil_iff: "wrap_counts v = [] \<longleftrightarrow> v = []"
  by (simp add: wrap_counts_def)

lemma validated_counts_again:
  assumes "validated_counts s = Inr (v, t)"
      and "distinct (map fst (state_get (employee_count s) []))"
  shows "validated_counts (write_counts s v) = Inr (v, t)"
proof -
  have t: "t = sum_list (map snd v)" by (rule validated_counts_total [OF assms])
  have vv: "validated v" by (rule validated_counts_validated [OF assms(1)])
  show ?thesis
  proof (cases "v = []")
    case False
    have "filter_counts (wrap_counts v) [] 0 = Inr (v, sum_list (map snd v))"
      using filter_counts_wrap [OF vv, of "[]" 0] by simp
    with False t show ?thesis
      by (simp add: validated_counts_def write_counts_def state_get_def wrap_counts_Nil_iff)
  next
    case True
    with assms(1) t show ?thesis
      by (auto simp: validated_counts_def write_counts_def state_get_def wrap_counts_def
          split: if_splits sum.splits prod.splits option.splits)
  qed
qed

lemma write_counts_idem: "write_counts (write_counts s v) v = write_counts s v"
  by (simp add: write_counts_def)

lemma snapshot_of_write_counts: "snapshot_of (write_counts s v) v t = snapshot_of s v t"
  by (simp add: snapshot_of_def write_counts_def)

lemma validated_counts_mixed:
  "validated_counts mixed_counts_state = Inr ([(''acme'', 5), (''c'', 2)], 7)"
  by (simp add: validated_counts_def mixed_counts_state_def empty_state_def state_get_def)

lemma validated_counts_fallback:
  "validated_counts fallback_state = Inr ([(''https://acme.com'', 1200)], 1200)"
  by (simp add: validated_counts_def fallback_state_def empty_state_def state_get_def)

lemma build_mixed:
  "build_enrichment_counts mixed_counts_state =
     Inr (write_counts mixed_counts_state [(''acme'', 5), (''c'', 2)],
          snapshot_of mixed_counts_state [(''acme'', 5), (''c'', 2)] 7)"
  by (simp add: build_enrichment_counts_eq validated_counts_mixed)

lemma build_fallback:
  "build_enrichment_counts fallback_state =
     Inr (write_counts fallback_state [(''https://acme.com'', 1200)],
          snapshot_of fallback_state [(''https://acme.com'', 1200)] 1200)"
  by (simp add: build_enrichment_counts_eq validated_counts_fallback)

lemma distinct_mixed: "distinct (map fst (state_get (employee_count mixed_counts_state) []))"
  by (simp add: mixed_counts_state_def empty_state_def state_get_def)

lemma distinct_fallback: "distinct (map fst (state_get (employee_count fallback_state) []))"
  by (simp add: fallback_state_def empty_state_def state_get_def)

text \<open>
  C6. On a state whose \<open>employee_count\<close> is a dictionary (no key twice), a call of
  \<open>build_enrichment_counts\<close> that returns leaves a state on which the next call
  returns the same snapshot and changes nothing. This covers the calls that filter out
  invalid entries, that fall back to the company documents, and that write validated
  values into the state. (A call that raises writes nothing and returns no snapshot.)
\<close>

theorem build_enrichment_counts_idempotent:
  assumes "distinct (map fst (state_get (employee_count s) []))"
      and "build_enrichment_counts s = Inr (s', snap)"
  shows "build_enrichment_counts s' = Inr (s', snap)"
proof -
  from assms(2) obtain v t where vc: "validated_counts s = Inr (v, t)"
    and s': "s' = write_counts s v" and snap: "snap = snapshot_of s v t"
    by (auto simp: build_enrichment_counts_eq split: sum.splits prod.splits)
  have "validated_counts s' = Inr (v, t)"
    unfolding s' by (rule validated_counts_again [OF vc assms(1)])
  then show ?thesis
    by (simp add: build_enrichment_counts_eq s' snap write_counts_idem snapshot_of_write_counts)
qed

theorem build_enrichment_counts_idempotent_witness:
  "distinct (map fst (state_get (employee_count mixed_counts_state) [])) \<and>
   build_enrichment_counts mixed_counts_state =
     Inr (write_counts mixed_counts_state [(''acme'', 5), (''c'', 2)],
          snapshot_of mixed_counts_state [(''acme'', 5), (''c'', 2)] 7) \<and>
   build_enrichment_counts (write_counts mixed_counts_state [(''acme'', 5), (''c'', 2)]) =
     Inr (write_counts mixed_counts_state [(''acme'', 5), (''c'', 2)],
          snapshot_of mixed_counts_state [(''acme'', 5), (''c'', 2)] 7) \<and>
   distinct (map fst (state_get (employee_count fallback_state) [])) \<and>
   build_enrichment_counts fallback_state =
     Inr (write_counts fallback_state [(''https://acme.com'', 1200)],
          snapshot_of fallback_state [(''https://acme.com'', 1200)] 1200) \<and>
   build_enrichment_counts (write_counts fallback_state [(''https://acme.com'', 1200)]) =
     Inr (write_counts fallback_state [(''https://acme.com'', 1200)],
          snapshot_of fallback_state [(''https://acme.com'', 1200)] 1200)"
  using build_enrichment_counts_idempotent [OF distinct_mixed build_mixed]
    build_enrichment_counts_idempotent [OF distinct_fallback build_fallback]
    distinct_mixed build_mixed distinct_fallback build_fallback
  by simp

text \<open>
  When \<open>build_enrichment_counts\<close> returns, the state holds an \<open>employee_count\<close>
  dictionary whose values are all integers between 1 and 10,000,000, and
  \<open>Company_Count\<close> is the number of its entries.
\<close>

theorem build_enrichment_counts_validates:
  assumes "build_enrichment_counts s = Inr (s', snap)"
  shows "employee_count s' \<noteq> None \<and>
         Company_Count s' = Some (int (length (state_get (employee_count s') []))) \<and>
         (\<forall>(url, v) \<in> set (state_get (employee_count s') []).
            \<exists>n. v = PInt n \<and> 1 \<le> n \<and> n \<le> 10000000) \<and>
         distinct (map fst (state_get (employee_count s') []))"
proof -
  from assms obtain v t where vc: "validated_counts s = Inr (v, t)"
    and s': "s' = write_counts s v"
    by (auto simp: build_enrichment_counts_eq split: sum.splits prod.splits)
  have vv: "validated v" by (rule validated_counts_validated [OF vc])
  have keys: "map fst (wrap_counts v) = map fst v"
    by (induction v) (auto simp: wrap_counts_def)
  have vals: "\<forall>(url, x) \<in> set (wrap_counts v). \<exists>n. x = PInt n \<and> 1 \<le> n \<and> n \<le> 10000000"
    using vv by (auto simp: wrap_counts_def validated_def list_all_iff in_range_def)
  have len: "length (wrap_counts v) = length v"
    by (simp add: wrap_counts_def)
  have st: "employee_count s' = Some (wrap_counts v)" "Company_Count s' = Some (int (length v))"
    by (simp_all add: s' write_counts_def)
  from vv vals show ?thesis
    by (simp add: st state_get_def keys len validated_def)
qed

theorem build_enrichment_counts_validates_witness:
  "build_enrichment_counts mixed_counts_state =
     Inr (write_counts mixed_counts_state [(''acme'', 5), (''c'', 2)],
          snapshot_of mixed_counts_state [(''acme'', 5), (''c'', 2)] 7) \<and>
   employee_count (write_counts mixed_counts_state [(''acme'', 5), (''c'', 2)]) =
     Some [(''acme'', PInt 5), (''c'', PInt 2)] \<and>
   Company_Count (write_counts mixed_counts_state [(''acme'', 5), (''c'', 2)]) =
     Some (int (length (state_get
       (employee_count (write_counts mixed_counts_state [(''acme'', 5), (''c'', 2)])) [])))"
  using build_enrichment_counts_validates [OF build_mixed] build_mixed
  by (simp add: write_counts_def wrap_counts_def)

text \<open>The only exception of \<open>build_enrichment_counts\<close> is the OverflowError of
  \<open>int()\<close> on a count that is \<open>float('inf')\<close>; without such a count it returns.\<close>

lemma int_of_number_raises:
  "is_int_or_float c \<Longrightarrow> gt_zero c \<Longrightarrow> int_of_number c = Inl e \<Longrightarrow>
   c = PFloat PosInf \<and> e = OverflowError"
  by (cases c rule: int_of_number.cases) auto

lemma filter_counts_raises:
  "filter_counts d acc t = Inl e \<Longrightarrow> PFloat PosInf \<in> snd ` set d \<and> e = OverflowError"
proof (induction d acc t rule: filter_counts.induct)
  case (1 acc t)
  then show ?case by simp
next
  case (2 url c rest acc t)
  show ?case
  proof (cases "is_int_or_float c \<and> gt_zero c")
    case False
    with "2.prems" "2.IH"(3) show ?thesis by auto
  next
    case True
    show ?thesis
    proof (cases "int_of_number c")
      case (Inl e')
      with True "2.prems" int_of_number_raises [of c e'] show ?thesis by auto
    next
      case (Inr n)
      with True "2.prems" "2.IH"(1) [OF True Inr] "2.IH"(2) [OF True Inr] show ?thesis
        by (auto split: if_splits)
    qed
  qed
qed

lemma extract_raises:
  "extract_employee_count_from_company_data h raw acc = Inl e \<Longrightarrow>
   e = OverflowError \<and> list_ex (infinite_in_doc h) (map snd raw)"
proof (induction raw arbitrary: acc)
  case Nil
  then show ?case by simp
next
  case (Cons x raw)
  obtain url a where x: "x = (url, a)" by (cases x)
  show ?case
  proof (cases "h a")
    case (PDict d)
    show ?thesis
    proof (cases "map_of d ''employee_count''")
      case None
      with PDict Cons.prems Cons.IH [of acc] show ?thesis by (simp add: x)
    next
      case (Some c)
      show ?thesis
      proof (cases "is_int_or_float c \<and> gt_zero c")
        case False
        with PDict Some Cons.prems Cons.IH [of acc] show ?thesis by (auto simp: x)
      next
        case True
        show ?thesis
        proof (cases "int_of_number c")
          case (Inl e')
          with True PDict Some Cons.prems int_of_number_raises [of c e'] show ?thesis
            by (auto simp: x infinite_in_doc_def)
        next
          case (Inr n)
          with True PDict Some Cons.prems Cons.IH [of acc]
            Cons.IH [of "AList.update url n acc"] show ?thesis
            by (auto simp: x split: if_splits)
        qed
      qed
    qed
  qed (use Cons.prems Cons.IH [of acc] in \<open>simp_all add: x\<close>)
qed

lemma build_enrichment_counts_raises_only_on_infinity:
  assumes "build_enrichment_counts s = Inl e"
  shows "e = OverflowError \<and> \<not> no_infinite_count s"
proof -
  from assms have v: "validated_counts s = Inl e"
    by (auto simp: build_enrichment_counts_eq split: sum.splits prod.splits)
  show ?thesis
  proof (cases "state_get (employee_count s) [] \<noteq> [] \<and>
                (\<exists>e'. filter_counts (state_get (employee_count s) []) [] 0 = Inl e')")
    case True
    with v filter_counts_raises [of "state_get (employee_count s) []" "[]" 0] show ?thesis
      by (auto simp: validated_counts_def no_infinite_count_def split: if_splits)
  next
    case False
    with v have "extract_employee_count_from_company_data (heap s)
                   (state_get (company_data s) []) [] = Inl e"
      by (auto simp: validated_counts_def split: if_splits sum.splits prod.splits)
    from extract_raises [OF this] show ?thesis
      by (simp add: no_infinite_count_def)
  qed
qed

lemma build_enrichment_counts_returns:
  "no_infinite_count s \<Longrightarrow> \<exists>s' snap. build_enrichment_counts s = Inr (s', snap)"
  using build_enrichment_counts_raises_only_on_infinity [of s]
  by (cases "build_enrichment_counts s") auto

text \<open>
  C7, at the failing input: with the counts \<open>{'acme': float('inf'), 'b': 0}\<close> and
  \<open>Company_Count\<close> 7, \<open>build_enrichment_counts\<close> raises OverflowError at the first
  entry, before it writes the state. When \<open>curate_data\<close>, which calls it, has ended,
  the state still holds both invalid entries, and \<open>Company_Count\<close> is not the number
  of entries.
\<close>

theorem build_enrichment_counts_overflow_leaves_invalid:
  "build_enrichment_counts infinite_entry_state = Inl OverflowError \<and>
   snd (curate_data R refs infinite_entry_state) = Some OverflowError \<and>
   employee_count (fst (curate_data R refs infinite_entry_state)) =
     Some [(''acme'', PFloat PosInf), (''b'', PInt 0)] \<and>
   Company_Count (fst (curate_data R refs infinite_entry_state)) = Some 7 \<and>
   Company_Count (fst (curate_data R refs infinite_entry_state)) \<noteq>
     Some (int (length (state_get
       (employee_count (fst (curate_data R refs infinite_entry_state))) [])))"
  by (simp add: infinite_entry_state_def empty_state_def build_enrichment_counts_def
      curate_data_def notify_def ws_attached_def data_types_def state_get_def
      preserve_critical_state_data_def restore_critical_state_data_def Let_def)

section \<open>Properties of the entry point\<close>

text \<open>
  C3, at the failing input: on the state whose only company document has the employee
  count \<open>float('inf')\<close>, \<open>curate_data\<close> ends with the OverflowError of
  \<open>build_enrichment_counts\<close>, and the handler of \<open>run\<close>, which calls
  \<open>build_enrichment_counts\<close> again, ends with the same exception: \<open>run\<close> propagates
  it.
\<close>

theorem run_propagates_overflow:
  "snd (curate_data R refs infinite_count_state) = Some OverflowError \<and>
   snd (run R refs infinite_count_state) = Some OverflowError"
  by (simp add: run_def curate_data_def infinite_count_state_def empty_state_def notify_def
      ws_attached_def data_types_def state_get_def dedup_def dedup_step_clean clean_url_acme
      set_item_def evaluate_documents_def dict_get_def relevance_threshold_def
      round_double_def preserve_critical_state_data_def restore_critical_state_data_def
      build_enrichment_counts_def Let_def sort_desc_def)

text \<open>
  In every other case \<open>run\<close> returns, with \<open>employee_count\<close>, \<open>Company_Count\<close>
  and \<open>enrichmentCounts\<close> in the state, whatever the collaborators do: it propagates an
  exception only when the call of \<open>build_enrichment_counts\<close> in its handler raises, and
  that exception is the OverflowError.
\<close>

lemma notify_keys:
  "notify st s = (s', r) \<Longrightarrow>
   employee_count s' = employee_count s \<and> Company_Count s' = Company_Count s \<and>
   enrichmentCounts s' = enrichmentCounts s"
  by (auto simp: notify_def send_status_update_def split: if_splits option.splits)

lemma build_keys:
  "build_enrichment_counts s = Inr (s', snap) \<Longrightarrow>
   employee_count s' \<noteq> None \<and> Company_Count s' \<noteq> None"
  by (auto simp: build_enrichment_counts_eq write_counts_def split: sum.splits prod.splits)

lemma curate_data_returns_keys:
  assumes "curate_data R refs s = (s', None)"
  shows "employee_count s' \<noteq> None \<and> Company_Count s' \<noteq> None \<and> enrichmentCounts s' \<noteq> None"
proof -
  from assms obtain s4 s5 ec s6 where
    b: "build_enrichment_counts s4 = Inr (s5, ec)" and
    n: "notify ''curation_complete'' (s5\<lparr>enrichmentCounts := Some ec\<rparr>) = (s6, None)" and
    s': "s' = send_enrichment_update s6"
    by (auto simp: curate_data_def Let_def split: prod.splits option.splits sum.splits)
  obtain s7 r7 where n7: "notify ''enrichment_update'' s6 = (s7, r7)"
    by (cases "notify ''enrichment_update'' s6")
  from build_keys [OF b] notify_keys [OF n] notify_keys [OF n7] show ?thesis
    by (simp add: s' send_enrichment_update_def n7)
qed

lemma run_returns_or_accounting_raises:
  "(snd (run R refs s) = None \<and>
    employee_count (fst (run R refs s)) \<noteq> None \<and>
    Company_Count (fst (run R refs s)) \<noteq> None \<and>
    enrichmentCounts (fst (run R refs s)) \<noteq> None) \<or>
   (snd (run R refs s) = Some OverflowError \<and> build_enrichment_counts (fst (run R refs s)) = Inl OverflowError)"
proof -
  obtain s' r where c: "curate_data R refs s = (s', r)" by (cases "curate_data R refs s")
  show ?thesis
  proof (cases r)
    case None
    with c curate_data_returns_keys [of R refs s s'] show ?thesis
      by (simp add: run_def)
  next
    case (Some e)
    let ?s1 = "if employee_count s' = None then s'\<lparr>employee_count := Some []\<rparr> else s'"
    let ?s2 = "if Company_Count ?s1 = None then ?s1\<lparr>Company_Count := Some 0\<rparr> else ?s1"
    show ?thesis
    proof (cases "build_enrichment_counts ?s2")
      case (Inl e')
      with build_enrichment_counts_raises_only_on_infinity [OF Inl] c Some show ?thesis
        by (simp add: run_def Let_def)
    next
      case (Inr res)
      obtain s3 ec where res: "res = (s3, ec)" by (cases res)
      from build_keys [OF Inr [unfolded res]] c Some Inr res show ?thesis
        by (simp add: run_def Let_def)
    qed
  qed
qed


section \<open>Properties of the deduplication loop and of curation\<close>

lemma dedup_step_cases:
  "(\<exists>cu d. clean_url_of R url = Inr cu \<and> map_of u cu = None \<and> h a = PDict d \<and>
      dedup_step R t (h, u) (url, a) =
        (h(a := PDict (AList.update ''doc_type'' (PStr t) (AList.update ''url'' (PStr cu) d))),
         u @ [(cu, a)])) \<or>
   dedup_step R t (h, u) (url, a) = (h, u)"
proof (cases "clean_url_of R url")
  case (Inl e)
  then show ?thesis by (simp add: dedup_step_clean)
next
  case (Inr cu)
  show ?thesis
  proof (cases "map_of u cu = None")
    case False
    with Inr show ?thesis by (auto simp: dedup_step_clean)
  next
    case True
    then have fresh: "cu \<notin> fst ` set u" by (simp add: map_of_eq_None_iff)
    have upd: "AList.update cu a u = u @ [(cu, a)]"
      using fresh by (induction u) auto
    show ?thesis
    proof (cases "h a")
      case (PDict d)
      with Inr True upd show ?thesis
        by (simp add: dedup_step_clean set_item_def)
    qed (simp_all add: dedup_step_clean Inr set_item_def)
  qed
qed

lemma tagged_update_other: "b \<noteq> a \<Longrightarrow> tagged (h(a := v)) t cu b = tagged h t cu b"
  by (simp add: tagged_def)

lemma tagged_new:
  "tagged (h(a := PDict (AList.update ''doc_type'' (PStr t) (AList.update ''url'' (PStr cu) d))))
     t cu a"
  by (simp add: tagged_def update_conv')

lemma dedup_fold_inv:
  assumes "distinct (map snd raw)" "snd ` set u \<inter> snd ` set raw = {}"
      and "\<forall>(cu, a) \<in> set u. tagged h t cu a"
  shows "(\<forall>(cu, a) \<in> set (snd (foldl (dedup_step R t) (h, u) raw)).
            tagged (fst (foldl (dedup_step R t) (h, u) raw)) t cu a) \<and>
         snd ` set (snd (foldl (dedup_step R t) (h, u) raw)) \<subseteq> snd ` set u \<union> snd ` set raw \<and>
         (\<forall>b. b \<notin> snd ` set raw \<longrightarrow> fst (foldl (dedup_step R t) (h, u) raw) b = h b)"
  using assms
proof (induction raw arbitrary: h u)
  case Nil
  then show ?case by simp
next
  case (Cons e raw)
  obtain url a where e: "e = (url, a)" by (cases e)
  have a_new: "a \<notin> snd ` set u" and a_rest: "a \<notin> snd ` set raw"
    and dist: "distinct (map snd raw)"
    using Cons.prems(1,2) e by auto
  from dedup_step_cases [of R url u h a t]
  show ?case
  proof
    assume "dedup_step R t (h, u) (url, a) = (h, u)"
    moreover have "snd ` set u \<inter> snd ` set raw = {}" using Cons.prems(2) by auto
    ultimately show ?thesis
      using Cons.IH [OF dist _ Cons.prems(3)] e by auto
  next
    assume "\<exists>cu d. clean_url_of R url = Inr cu \<and> map_of u cu = None \<and> h a = PDict d \<and>
      dedup_step R t (h, u) (url, a) =
        (h(a := PDict (AList.update ''doc_type'' (PStr t) (AList.update ''url'' (PStr cu) d))),
         u @ [(cu, a)])"
    then obtain cu d where
      step: "dedup_step R t (h, u) (url, a) =
        (h(a := PDict (AList.update ''doc_type'' (PStr t) (AList.update ''url'' (PStr cu) d))),
         u @ [(cu, a)])" by blast
    let ?h = "h(a := PDict (AList.update ''doc_type'' (PStr t) (AList.update ''url'' (PStr cu) d)))"
    have disj: "snd ` set (u @ [(cu, a)]) \<inter> snd ` set raw = {}"
      using Cons.prems(2) a_rest by auto
    have inv: "\<forall>(cu', b) \<in> set (u @ [(cu, a)]). tagged ?h t cu' b"
    proof -
      have "tagged ?h t cu' b" if "(cu', b) \<in> set u" for cu' b
      proof -
        from that a_new have "b \<noteq> a" by force
        with that Cons.prems(3) show ?thesis by (auto simp: tagged_update_other)
      qed
      then show ?thesis using tagged_new [of h a t cu d] by auto
    qed
    have eq: "foldl (dedup_step R t) (h, u) (e # raw) =
              foldl (dedup_step R t) (?h, u @ [(cu, a)]) raw"
      by (simp add: e step)
    note IH = Cons.IH [OF dist disj inv]
    have c1: "\<forall>(cu', b) \<in> set (snd (foldl (dedup_step R t) (?h, u @ [(cu, a)]) raw)).
                tagged (fst (foldl (dedup_step R t) (?h, u @ [(cu, a)]) raw)) t cu' b"
      using IH by blast
    have c2: "snd ` set (snd (foldl (dedup_step R t) (?h, u @ [(cu, a)]) raw)) \<subseteq>
              snd ` set u \<union> snd ` set (e # raw)"
    proof -
      have "snd ` set (snd (foldl (dedup_step R t) (?h, u @ [(cu, a)]) raw)) \<subseteq>
            snd ` set (u @ [(cu, a)]) \<union> snd ` set raw"
        using IH by blast
      also have "\<dots> \<subseteq> snd ` set u \<union> snd ` set (e # raw)"
        by (auto simp: e)
      finally show ?thesis .
    qed
    have c3: "\<forall>b. b \<notin> snd ` set (e # raw) \<longrightarrow>
                fst (foldl (dedup_step R t) (?h, u @ [(cu, a)]) raw) b = h b"
    proof (intro allI impI)
      fix b assume b: "b \<notin> snd ` set (e # raw)"
      then have "b \<noteq> a" and "b \<notin> snd ` set raw" by (auto simp: e)
      then have "fst (foldl (dedup_step R t) (?h, u @ [(cu, a)]) raw) b = ?h b"
        using IH by blast
      with \<open>b \<noteq> a\<close> show "fst (foldl (dedup_step R t) (?h, u @ [(cu, a)]) raw) b = h b"
        by simp
    qed
    show ?thesis unfolding eq using c1 c2 c3 by blast
  qed
qed

lemma is_dict_dedup_step:
  "is_dict (fst (dedup_step R t (h, u) (url, a)) b) = is_dict (h b)"
  using dedup_step_cases [of R url u h a t] by (cases "b = a") auto

lemma dedup_step_dict_only:
  assumes "\<forall>b. is_dict (h b) = is_dict (h2 b)"
  shows "snd (dedup_step R t (h, u) e) = snd (dedup_step R t (h2, u) e) \<and>
         (\<forall>b. is_dict (fst (dedup_step R t (h, u) e) b) =
               is_dict (fst (dedup_step R t (h2, u) e) b))"
proof -
  obtain url a where e: "e = (url, a)" by (cases e)
  have d: "is_dict (h a) = is_dict (h2 a)" using assms by simp
  have dicts: "\<forall>b. is_dict (fst (dedup_step R t (h, u) e) b) =
               is_dict (fst (dedup_step R t (h2, u) e) b)"
    using assms by (simp add: e is_dict_dedup_step)
  have "snd (dedup_step R t (h, u) (url, a)) = snd (dedup_step R t (h2, u) (url, a))"
    using d
    by (cases "h a"; cases "h2 a")
       (auto simp: dedup_step_clean set_item_def split: sum.splits)
  with dicts e show ?thesis by simp
qed

lemma dedup_fold_dict_only:
  "\<forall>b. is_dict (h b) = is_dict (h2 b) \<Longrightarrow>
   snd (foldl (dedup_step R t) (h, u) raw) = snd (foldl (dedup_step R t) (h2, u) raw) \<and>
   (\<forall>b. is_dict (fst (foldl (dedup_step R t) (h, u) raw) b) =
         is_dict (fst (foldl (dedup_step R t) (h2, u) raw) b))"
proof (induction raw arbitrary: h h2 u)
  case Nil
  then show ?case by simp
next
  case (Cons e raw)
  obtain h' u' where s1: "dedup_step R t (h, u) e = (h', u')" by (cases "dedup_step R t (h, u) e")
  obtain h2' u2' where s2: "dedup_step R t (h2, u) e = (h2', u2')"
    by (cases "dedup_step R t (h2, u) e")
  from dedup_step_dict_only [OF Cons.prems, of R t u e] s1 s2
  have "u2' = u'" and "\<forall>b. is_dict (h' b) = is_dict (h2' b)" by auto
  with Cons.IH [of h' h2' u'] s1 s2 show ?case by simp
qed

lemma is_dict_dedup: "is_dict (fst (dedup R t h raw) b) = is_dict (h b)"
proof -
  have "is_dict (fst (foldl (dedup_step R t) (h, u) raw) b) = is_dict (h b)" for u
  proof (induction raw arbitrary: h u)
    case Nil
    then show ?case by simp
  next
    case (Cons e raw)
    obtain url a where e: "e = (url, a)" by (cases e)
    obtain h' u' where s1: "dedup_step R t (h, u) (url, a) = (h', u')"
      by (cases "dedup_step R t (h, u) (url, a)")
    have "is_dict (h' b) = is_dict (h b)"
      using is_dict_dedup_step [of R t h u url a b] s1 by simp
    with Cons.IH [of h' u'] show ?case by (simp add: e s1)
  qed
  then show ?thesis by (simp add: dedup_def)
qed


lemma raw_data_heap [simp]: "raw_data c (s\<lparr>heap := h\<rparr>) = raw_data c s"
  by (cases c) simp_all

lemma dedup_tagged:
  assumes "distinct (map snd raw)"
  shows "(\<forall>(cu, a) \<in> set (snd (dedup R t h raw)). tagged (fst (dedup R t h raw)) t cu a) \<and>
         snd ` set (snd (dedup R t h raw)) \<subseteq> snd ` set raw \<and>
         (\<forall>b. b \<notin> snd ` set raw \<longrightarrow> fst (dedup R t h raw) b = h b)"
  using dedup_fold_inv [OF assms, of "[]" h t R] by (simp add: dedup_def)

lemma dedup_dict_only:
  "\<forall>b. is_dict (h b) = is_dict (h2 b) \<Longrightarrow> snd (dedup R t h raw) = snd (dedup R t h2 raw)"
  using dedup_fold_dict_only [of h h2 R t "[]" raw] by (simp add: dedup_def)

lemma dedup_Nil [simp]: "dedup R t h [] = (h, [])"
  by (simp add: dedup_def)

lemma raw_addrs_heap [simp]: "raw_addrs cs (s\<lparr>heap := h\<rparr>) = raw_addrs cs s"
  by (simp add: raw_addrs_def)

lemma raw_addrs_Cons: "raw_addrs (c # cs) s = map snd (raw_data c s) @ raw_addrs cs s"
  by (simp add: raw_addrs_def)

lemma prepare_tasks_inv:
  assumes "distinct (raw_addrs cs s)"
  shows "(\<forall>c \<in> set cs. \<forall>(cu, a) \<in> set (snd (dedup R (doc_type_of c) (heap s) (raw_data c s))).
            tagged (heap (fst (prepare_tasks R cs s))) (doc_type_of c) cu a) \<and>
         (\<forall>b. b \<notin> set (raw_addrs cs s) \<longrightarrow> heap (fst (prepare_tasks R cs s)) b = heap s b) \<and>
         (\<forall>b. is_dict (heap (fst (prepare_tasks R cs s)) b) = is_dict (heap s b)) \<and>
         fst (prepare_tasks R cs s) = s\<lparr>heap := heap (fst (prepare_tasks R cs s))\<rparr>"
  using assms
proof (induction cs arbitrary: s)
  case Nil
  then show ?case by simp
next
  case (Cons c cs)
  have dist_c: "distinct (map snd (raw_data c s))" and dist_cs: "distinct (raw_addrs cs s)"
    and disj: "set (map snd (raw_data c s)) \<inter> set (raw_addrs cs s) = {}"
    using Cons.prems by (auto simp: raw_addrs_Cons)
  show ?case
  proof (cases "raw_data c s = []")
    case True
    then have p: "prepare_tasks R (c # cs) s = prepare_tasks R cs s" by simp
    have r: "raw_addrs (c # cs) s = raw_addrs cs s" by (simp add: raw_addrs_Cons True)
    from Cons.IH [OF dist_cs] show ?thesis
      unfolding p r by (auto simp: True)
  next
    case False
    obtain h u where d: "dedup R (doc_type_of c) (heap s) (raw_data c s) = (h, u)"
      by (cases "dedup R (doc_type_of c) (heap s) (raw_data c s)")
    let ?s1 = "s\<lparr>heap := h\<rparr>"
    have p: "fst (prepare_tasks R (c # cs) s) = fst (prepare_tasks R cs ?s1)"
      using False d by (simp add: Let_def split: prod.splits)
    note D = dedup_tagged [OF dist_c, of R "doc_type_of c" "heap s", unfolded d, simplified]
    have dict_h: "\<forall>b. is_dict (h b) = is_dict (heap s b)"
      using is_dict_dedup [of R "doc_type_of c" "heap s" "raw_data c s"] d by simp
    have dist1: "distinct (raw_addrs cs ?s1)" using dist_cs by simp
    note IH = Cons.IH [OF dist1, simplified]
    let ?h' = "heap (fst (prepare_tasks R cs ?s1))"
    have c_tag: "tagged ?h' (doc_type_of c) cu a" if "(cu, a) \<in> set u" for cu a
    proof -
      from that D have t: "tagged h (doc_type_of c) cu a" by auto
      from that have "a \<in> snd ` set u" by force
      with D have "a \<in> snd ` set (raw_data c s)" by blast
      with disj have "a \<notin> set (raw_addrs cs s)" by auto
      with IH have "?h' a = h a" by simp
      with t show ?thesis by (simp add: tagged_def)
    qed
    have cs_tag: "tagged ?h' (doc_type_of c') cu a"
      if "c' \<in> set cs" "(cu, a) \<in> set (snd (dedup R (doc_type_of c') (heap s) (raw_data c' s)))"
      for c' cu a
    proof -
      have "snd (dedup R (doc_type_of c') h (raw_data c' s)) =
            snd (dedup R (doc_type_of c') (heap s) (raw_data c' s))"
        by (rule dedup_dict_only [OF dict_h])
      with that IH show ?thesis by fastforce
    qed
    have frame: "?h' b = heap s b" if "b \<notin> set (raw_addrs (c # cs) s)" for b
    proof -
      from that have "b \<notin> snd ` set (raw_data c s)" "b \<notin> set (raw_addrs cs s)"
        by (auto simp: raw_addrs_Cons)
      with IH D show ?thesis by simp
    qed
    have dicts: "is_dict (?h' b) = is_dict (heap s b)" for b
      using IH dict_h by simp
    have shape: "fst (prepare_tasks R cs ?s1) = s\<lparr>heap := ?h'\<rparr>"
    proof -
      from IH have "fst (prepare_tasks R cs ?s1) = ?s1\<lparr>heap := ?h'\<rparr>" by simp
      then show ?thesis by simp
    qed
    show ?thesis
      unfolding p using c_tag cs_tag frame dicts shape d by auto
  qed
qed


lemma docs_unchanged_refl [simp]: "docs_unchanged s s"
  by (simp add: docs_unchanged_def)

lemma docs_unchanged_trans:
  "docs_unchanged s s1 \<Longrightarrow> docs_unchanged s1 s2 \<Longrightarrow> docs_unchanged s s2"
  by (simp add: docs_unchanged_def)

lemma docs_unchanged_raw_data: "docs_unchanged s s' \<Longrightarrow> raw_data c s' = raw_data c s"
  by (cases c) (simp_all add: docs_unchanged_def)

lemma docs_unchanged_notify: "docs_unchanged s (fst (notify st s))"
  by (simp add: notify_def send_status_update_def docs_unchanged_def split: option.splits)

lemma docs_unchanged_notify': "notify st s = (s', r) \<Longrightarrow> docs_unchanged s s'"
  using docs_unchanged_notify [of s st] by simp

lemma docs_unchanged_eval_loop: "docs_unchanged s (fst (eval_loop R docs s acc))"
proof -
  let ?f = "\<lambda>s. (heap s, company_data s, industry_data s, financial_data s, news_data s)"
  have "?f (fst (eval_loop R docs s acc)) = ?f s"
    by (rule eval_loop_frame) (auto dest!: docs_unchanged_notify' simp: docs_unchanged_def)
  then show ?thesis by (simp add: docs_unchanged_def)
qed

lemma docs_unchanged_evaluate: "docs_unchanged s (fst (evaluate_documents R s docs))"
proof -
  obtain s0 r where n: "notify ''processing'' s = (s0, r)" by (cases "notify ''processing'' s")
  have u: "docs_unchanged s s0" by (rule docs_unchanged_notify' [OF n])
  show ?thesis
    using u docs_unchanged_eval_loop [of s0 R docs "[]"]
    by (auto simp: evaluate_documents_def n split: option.splits prod.splits sum.splits
        intro: docs_unchanged_trans)
qed

lemma docs_unchanged_set_curated: "docs_unchanged s (set_curated c v s)"
  by (cases c) (simp_all add: docs_unchanged_def)

lemma docs_unchanged_process_tasks:
  "docs_unchanged s (fst (fst (process_tasks R tasks s dc)))"
proof (induction R tasks s dc rule: process_tasks.induct)
  case (1 R s dc)
  then show ?case by simp
next
  case (2 R c urls docs tasks s dc)
  obtain s1 r1 where n: "notify ''category_start'' s = (s1, r1)"
    by (cases "notify ''category_start'' s")
  have u1: "docs_unchanged s s1" by (rule docs_unchanged_notify' [OF n])
  show ?case
  proof (cases r1)
    case (Some e)
    with n u1 show ?thesis by simp
  next
    case None
    obtain s2 r2 where ev: "evaluate_documents R s1 docs = (s2, r2)"
      by (cases "evaluate_documents R s1 docs")
    have u2: "docs_unchanged s s2"
      using docs_unchanged_evaluate [of s1 R docs] ev u1 by (auto intro: docs_unchanged_trans)
    show ?thesis
    proof (cases r2)
      case (Inl e)
      with n None ev u2 show ?thesis by simp
    next
      case (Inr evaluated_docs)
      show ?thesis
      proof (cases "evaluated_docs = []")
        case True
        have "docs_unchanged s2 (fst (fst (process_tasks R tasks s2
                (AList.update c (length docs, 0) dc))))"
          using "2.IH"(1) [OF n [symmetric] None ev [symmetric] Inr True] .
        with u2 n None ev Inr True show ?thesis
          by (auto intro: docs_unchanged_trans)
      next
        case False
        let ?kept = "dict_of_items
             (if 30 < length (sort_desc (\<lambda>item. overall_score (evaluation (snd item)))
                                (dict_of_items (zip urls evaluated_docs)))
              then take 30 (sort_desc (\<lambda>item. overall_score (evaluation (snd item)))
                                (dict_of_items (zip urls evaluated_docs)))
              else sort_desc (\<lambda>item. overall_score (evaluation (snd item)))
                                (dict_of_items (zip urls evaluated_docs)))"
        have "docs_unchanged (set_curated c ?kept s2)
                (fst (fst (process_tasks R tasks (set_curated c ?kept s2)
                   (AList.update c (length docs, length ?kept) dc))))"
          using "2.IH"(2) [OF n [symmetric] None ev [symmetric] Inr False refl refl refl refl] .
        with u2 docs_unchanged_set_curated [of s2 c ?kept] n None ev Inr False show ?thesis
          by (auto simp: Let_def intro: docs_unchanged_trans)
      qed
    qed
  qed
qed


lemma docs_unchanged_restore: "docs_unchanged s (restore_critical_state_data s p)"
  by (simp add: restore_critical_state_data_def docs_unchanged_def Let_def split: option.splits)

lemma docs_unchanged_build:
  "build_enrichment_counts s = Inr (s', snap) \<Longrightarrow> docs_unchanged s s'"
  by (auto simp: build_enrichment_counts_def docs_unchanged_def Let_def
      split: sum.splits prod.splits if_splits)

lemma docs_unchanged_prepare:
  "docs_unchanged s s0 \<Longrightarrow> prepare_tasks R cs s0 = (s1, tasks) \<Longrightarrow>
   distinct (raw_addrs cs s) \<Longrightarrow>
   company_data s1 = company_data s \<and> industry_data s1 = industry_data s \<and>
   financial_data s1 = financial_data s \<and> news_data s1 = news_data s"
proof -
  assume u: "docs_unchanged s s0" and p: "prepare_tasks R cs s0 = (s1, tasks)"
    and d: "distinct (raw_addrs cs s)"
  have "raw_addrs cs s0 = raw_addrs cs s"
    using u by (simp add: raw_addrs_def docs_unchanged_raw_data)
  with d have "distinct (raw_addrs cs s0)" by simp
  from prepare_tasks_inv [OF this, of R] p
  have "s1 = s0\<lparr>heap := heap s1\<rparr>" by simp
  then have "company_data s1 = company_data s0 \<and> industry_data s1 = industry_data s0 \<and>
     financial_data s1 = financial_data s0 \<and> news_data s1 = news_data s0"
    by (metis (no_types) research_state.select_convs(4,5,6,7) research_state.surjective
        research_state.update_convs(1))
  with u show ?thesis by (simp add: docs_unchanged_def)
qed

lemma curate_data_docs:
  assumes n: "notify ''processing'' s = (s0, None)"
      and p: "prepare_tasks R data_types s0 = (s1, tasks)"
  shows "docs_unchanged s1 (fst (curate_data R refs s))"
proof -
  obtain s2 dc r2 where pt: "process_tasks R tasks s1 [] = ((s2, dc), r2)"
    by (cases "process_tasks R tasks s1 []") auto
  have u2: "docs_unchanged s1 s2"
    using docs_unchanged_process_tasks [of s1 R tasks "[]"] pt by simp
  show ?thesis
  proof (cases r2)
    case (Some e)
    with n p pt u2 show ?thesis by (simp add: curate_data_def)
  next
    case None
    let ?s3 = "restore_critical_state_data s2 (preserve_critical_state_data s)"
    let ?s4 = "?s3\<lparr>references := Some (case refs ?s3 of Inl e \<Rightarrow> ([], [], []) | Inr r \<Rightarrow> r)\<rparr>"
    have u4: "docs_unchanged s1 ?s4"
      using u2 docs_unchanged_restore [of s2 "preserve_critical_state_data s"]
      by (simp add: docs_unchanged_def)
    show ?thesis
    proof (cases "build_enrichment_counts ?s4")
      case (Inl e)
      with n p pt None u4 show ?thesis by (simp add: curate_data_def Let_def)
    next
      case (Inr res)
      obtain s5 ec where res: "res = (s5, ec)" by (cases res)
      have u5: "docs_unchanged s1 s5"
        using docs_unchanged_build [OF Inr [unfolded res]] u4 by (rule docs_unchanged_trans [rotated])
      let ?s5' = "s5\<lparr>enrichmentCounts := Some ec\<rparr>"
      have u5': "docs_unchanged s1 ?s5'" using u5 by (simp add: docs_unchanged_def)
      obtain s6 r6 where n6: "notify ''curation_complete'' ?s5' = (s6, r6)"
        by (cases "notify ''curation_complete'' ?s5'")
      have u6: "docs_unchanged s1 s6"
        using docs_unchanged_notify' [OF n6] u5' by (rule docs_unchanged_trans [rotated])
      have u7: "docs_unchanged s1 (send_enrichment_update s6)"
        using docs_unchanged_notify [of s6 "''enrichment_update''"] u6
        by (auto simp: send_enrichment_update_def intro: docs_unchanged_trans)
      show ?thesis
        using n p pt None Inr res n6 u6 u7
        by (cases r6) (simp_all add: curate_data_def Let_def)
    qed
  qed
qed

lemma dedup_fold_origin:
  "\<forall>(cu, a) \<in> set (snd (foldl (dedup_step R t) (h, u) raw)).
     (cu, a) \<in> set u \<or> (\<exists>url. (url, a) \<in> set raw \<and> clean_url_of R url = Inr cu)"
proof (induction raw arbitrary: h u)
  case Nil
  then show ?case by auto
next
  case (Cons e raw)
  obtain url a where e: "e = (url, a)" by (cases e)
  from dedup_step_cases [of R url u h a t]
  show ?case
  proof
    assume "dedup_step R t (h, u) (url, a) = (h, u)"
    with Cons.IH [of h u] show ?thesis by (fastforce simp: e)
  next
    assume "\<exists>cu d. clean_url_of R url = Inr cu \<and> map_of u cu = None \<and> h a = PDict d \<and>
      dedup_step R t (h, u) (url, a) =
        (h(a := PDict (AList.update ''doc_type'' (PStr t) (AList.update ''url'' (PStr cu) d))),
         u @ [(cu, a)])"
    then obtain cu d where cl: "clean_url_of R url = Inr cu" and
      step: "dedup_step R t (h, u) (url, a) =
        (h(a := PDict (AList.update ''doc_type'' (PStr t) (AList.update ''url'' (PStr cu) d))),
         u @ [(cu, a)])" by blast
    let ?h = "h(a := PDict (AList.update ''doc_type'' (PStr t) (AList.update ''url'' (PStr cu) d)))"
    have eq: "foldl (dedup_step R t) (h, u) (e # raw) =
              foldl (dedup_step R t) (?h, u @ [(cu, a)]) raw"
      by (simp add: e step)
    show ?thesis
      unfolding eq using Cons.IH [of ?h "u @ [(cu, a)]"] cl by (fastforce simp: e)
  qed
qed

lemma dedup_origin:
  "(cu, a) \<in> set (snd (dedup R t h raw)) \<Longrightarrow>
   \<exists>url. (url, a) \<in> set raw \<and> clean_url_of R url = Inr cu"
  using dedup_fold_origin [of R t h "[]" raw] by (fastforce simp: dedup_def)

text \<open>
  C9. Let no document object be shared between two entries of the raw mappings, and
  let the first notification of \<open>curate_data\<close> go through (or no observer be
  attached). For a candidate of the deduplication of a category, that is the document
  \<open>a\<close> first seen under the normalized URL \<open>cu\<close>: the candidate is the very object of
  a raw entry whose URL normalizes to \<open>cu\<close>; when \<open>curate_data\<close> ends, by returning or
  by raising, that object holds \<open>cu\<close> under \<open>url\<close> and the category tag under
  \<open>doc_type\<close>; and the raw mapping is what it was, so that the change shows through it.
\<close>

theorem curate_data_mutates_raw_documents:
  assumes "notify ''processing'' s = (s0, None)"
      and "distinct (raw_addrs data_types s)"
      and "(cu, a) \<in> set (snd (dedup R (doc_type_of c) (heap s) (raw_data c s)))"
  shows "(\<exists>d. heap (fst (curate_data R refs s)) a = PDict d \<and>
              map_of d ''url'' = Some (PStr cu) \<and>
              map_of d ''doc_type'' = Some (PStr (doc_type_of c))) \<and>
         (\<exists>url. (url, a) \<in> set (raw_data c s) \<and> clean_url_of R url = Inr cu) \<and>
         raw_data c (fst (curate_data R refs s)) = raw_data c s"
proof -
  have u0: "docs_unchanged s s0" by (rule docs_unchanged_notify' [OF assms(1)])
  obtain s1 tasks where p: "prepare_tasks R data_types s0 = (s1, tasks)"
    by (cases "prepare_tasks R data_types s0")
  have raw0: "raw_data c' s0 = raw_data c' s" for c'
    by (rule docs_unchanged_raw_data [OF u0])
  have h0: "heap s0 = heap s" using u0 by (simp add: docs_unchanged_def)
  have "raw_addrs data_types s0 = raw_addrs data_types s"
    by (simp add: raw_addrs_def raw0)
  with assms(2) have d0: "distinct (raw_addrs data_types s0)" by simp
  have c_in: "c \<in> set data_types" by (cases c) (simp_all add: data_types_def)
  from prepare_tasks_inv [OF d0, of R] p c_in assms(3)
  have t1: "tagged (heap s1) (doc_type_of c) cu a"
    by (fastforce simp: raw0 h0)
  have u: "docs_unchanged s1 (fst (curate_data R refs s))"
    by (rule curate_data_docs [OF assms(1) p])
  have raws: "company_data s1 = company_data s \<and> industry_data s1 = industry_data s \<and>
      financial_data s1 = financial_data s \<and> news_data s1 = news_data s"
    by (rule docs_unchanged_prepare [OF u0 p assms(2)])
  have r1: "raw_data c s1 = raw_data c s" using raws by (cases c) simp_all
  have t2: "tagged (heap (fst (curate_data R refs s))) (doc_type_of c) cu a"
    using t1 u by (simp add: docs_unchanged_def tagged_def)
  have c1: "\<exists>d. heap (fst (curate_data R refs s)) a = PDict d \<and>
              map_of d ''url'' = Some (PStr cu) \<and>
              map_of d ''doc_type'' = Some (PStr (doc_type_of c))"
    using t2 by (auto simp: tagged_def split: pyval.splits)
  have c2: "\<exists>url. (url, a) \<in> set (raw_data c s) \<and> clean_url_of R url = Inr cu"
    by (rule dedup_origin [OF assms(3)])
  have c3: "raw_data c (fst (curate_data R refs s)) = raw_data c s"
    using docs_unchanged_raw_data [OF u, of c] r1 by simp
  from c1 c2 c3 show ?thesis by blast
qed

theorem curate_data_mutates_raw_documents_witness:
  "notify ''processing'' scenario_state = (scenario_state, None) \<and>
   distinct (raw_addrs data_types scenario_state) \<and>
   (''https://a.com/x'', 0) \<in>
     set (snd (dedup example_runtime (doc_type_of Company) (heap scenario_state)
                (raw_data Company scenario_state))) \<and>
   (\<exists>d. heap (fst (curate_data example_runtime no_references scenario_state)) 0 = PDict d \<and>
        map_of d ''url'' = Some (PStr ''https://a.com/x'') \<and>
        map_of d ''doc_type'' = Some (PStr ''company'')) \<and>
   raw_data Company (fst (curate_data example_runtime no_references scenario_state)) =
     [(''https://a.com/x?ref=1'', 0), (''https://a.com/x'', 1)]"
proof -
  have n: "notify ''processing'' scenario_state = (scenario_state, None)"
    by (simp add: notify_def ws_attached_def scenario_state_def empty_state_def)
  have d: "distinct (raw_addrs data_types scenario_state)"
    by (simp add: raw_addrs_def data_types_def scenario_state_def empty_state_def state_get_def)
  have r: "raw_data Company scenario_state =
             [(''https://a.com/x?ref=1'', 0), (''https://a.com/x'', 1)]"
    by (simp add: scenario_state_def empty_state_def state_get_def)
  have h: "heap scenario_state = scenario_heap"
    by (simp add: scenario_state_def empty_state_def)
  have m: "(''https://a.com/x'', 0) \<in>
     set (snd (dedup example_runtime (doc_type_of Company) (heap scenario_state)
                (raw_data Company scenario_state)))"
    unfolding r h using dedup_https_https [of example_runtime "''company''"] by simp
  from curate_data_mutates_raw_documents [OF n d m, of no_references] n d m r
  show ?thesis by simp
qed

section \<open>Properties of the employee-count step\<close>

lemma send_employee_count_update_frame:
  "employee_count (send_employee_count_update v c s) = employee_count s \<and>
   Company_Count (send_employee_count_update v c s) = Company_Count s"
  by (simp add: send_employee_count_update_def send_status_update_def Let_def
      split: option.splits)

lemma notify_frame:
  "notify st s = (s', r) \<Longrightarrow>
   employee_count s' = employee_count s \<and> Company_Count s' = Company_Count s \<and>
   company s' = company s \<and> company_url s' = company_url s"
  by (auto simp: notify_def send_status_update_def split: if_splits option.splits)

text \<open>
  C10. When the body of the \<open>try\<close> around the employee-count analysis ends with an
  exception, the step stores the fallback 100 under the company's key in
  \<open>employee_count\<close> (not the validator's fallback 1) and sets \<open>Company_Count\<close> to 1.
\<close>

theorem analyze_fallback_100:
  assumes "employee_count_try maxd response s = (s1, Inl e)"
      and "employee_count_step maxd response s = (s', v)"
  shows "v = 100 \<and>
         map_of (state_get (employee_count s') []) (company_url_key s) = Some (PInt 100) \<and>
         Company_Count s' = Some 1 \<and> PInt 100 \<noteq> PInt 1"
proof -
  from assms(1) have key: "company_url_key s1 = company_url_key s"
    by (auto simp: employee_count_try_def company_url_key_def company_name_of_def Let_def
        split: prod.splits option.splits sum.splits dest!: notify_frame)
  from assms show ?thesis
    by (auto simp: employee_count_step_def Let_def send_employee_count_update_frame
        key [symmetric] store_employee_count_def state_get_def update_conv')
qed

theorem analyze_fallback_100_witness:
  "employee_count_try 4300 (Some ''1200 (2023)'') broken_channel_state =
     (broken_channel_state\<lparr>ws_updates := [''processing'']\<rparr>, Inl CollaboratorError) \<and>
   snd (employee_count_step 4300 (Some ''1200 (2023)'') broken_channel_state) = 100 \<and>
   map_of (state_get (employee_count
       (fst (employee_count_step 4300 (Some ''1200 (2023)'') broken_channel_state))) [])
     ''acme-corp'' = Some (PInt 100) \<and>
   Company_Count (fst (employee_count_step 4300 (Some ''1200 (2023)'') broken_channel_state)) =
     Some 1"
proof -
  have t: "employee_count_try 4300 (Some ''1200 (2023)'') broken_channel_state =
     (broken_channel_state\<lparr>ws_updates := [''processing'']\<rparr>, Inl CollaboratorError)"
    by (simp add: employee_count_try_def notify_def ws_attached_def send_status_update_def
        broken_channel_state_def empty_state_def)
  have k: "company_url_key broken_channel_state = ''acme-corp''"
    by code_simp
  show ?thesis
    using analyze_fallback_100 [OF t surjective_pairing] t k by simp
qed

end
